theory Spec2Isabelle
  imports Main
begin

section \<open>Python values shared by both programs\<close>

text \<open>
  An exception object: its class name, the text \<open>str(e)\<close> gives, and its
  \<open>__cause__\<close> (set only by \<open>raise ... from ...\<close>); or an exception group, with
  its message and the exceptions it holds. The type stands for the subclasses of
  \<open>Exception\<close>, which is what both \<open>except Exception\<close> clauses of the sources
  catch; interpreter signals such as \<open>KeyboardInterrupt\<close> are outside it. A
  computation that may raise returns \<open>pyexn + 'a\<close>, with \<open>Inl\<close> the raised
  exception.
\<close>

datatype pyexn =
    PyExn string string "pyexn option"
  | ExceptionGroup string "pyexn list"

datatype level = INFO | WARNING | ERROR

definition nl :: string where
  "nl = [CHR 0x0A]"

definition sq :: string where
  "sq = [CHR 0x27]"

text \<open>\<open>str(n)\<close> for a non-negative integer: its decimal digits.\<close>

definition digit_char :: "nat \<Rightarrow> char" where
  "digit_char d = char_of (48 + d)"

fun str_nat :: "nat \<Rightarrow> string" where
  "str_nat n = (if n < 10 then [digit_char n] else str_nat (n div 10) @ [digit_char (n mod 10)])"

declare str_nat.simps [simp del]

text \<open>
  The class name of an exception and \<open>str(e)\<close>; for a group the latter is the message
  followed by the number of exceptions held.
\<close>

fun exn_class :: "pyexn \<Rightarrow> string" where
  "exn_class (PyExn cls msg cause) = cls"
| "exn_class (ExceptionGroup msg es) = ''ExceptionGroup''"

fun exn_str :: "pyexn \<Rightarrow> string" where
  "exn_str (PyExn cls msg cause) = msg"
| "exn_str (ExceptionGroup msg es) =
     msg @ '' ('' @ str_nat (length es) @
     (if length es = 1 then '' sub-exception)'' else '' sub-exceptions)'')"

text \<open>\<open>"\n".join(xs)\<close>.\<close>

fun join_nl :: "string list \<Rightarrow> string" where
  "join_nl [] = []"
| "join_nl [x] = x"
| "join_nl (x # y # ys) = x @ nl @ join_nl (y # ys)"

section \<open>The tool process: \<open>mcp_server.py\<close>\<close>

definition MAX_QUERIES_PER_BATCH :: nat where
  "MAX_QUERIES_PER_BATCH = 3"

definition MAX_CHARS_PER_RESULT :: nat where
  "MAX_CHARS_PER_RESULT = 300"

text \<open>
  A key of a response dictionary: absent, present with the value \<open>None\<close> (a JSON
  null), or present with a value. The values the search API documents are strings and, for
  \<open>results\<close>, a list of dictionaries; the model types them so.
\<close>

datatype 'a field = Absent | Null | Val 'a

record search_result =
  title :: "string field"
  url :: "string field"
  content :: "string field"

record response =
  answer :: "string field"
  results :: "search_result list field"

text \<open>\<open>d.get(key, default)\<close>: the result is a Python value, \<open>None\<close> when the key holds null.\<close>

definition dict_get :: "'a field \<Rightarrow> 'a \<Rightarrow> 'a option" where
  "dict_get f d = (case f of Absent \<Rightarrow> Some d | Null \<Rightarrow> None | Val v \<Rightarrow> Some v)"

text \<open>How an f-string renders a value that is a string or \<open>None\<close>.\<close>

definition fmt :: "string option \<Rightarrow> string" where
  "fmt v = (case v of None \<Rightarrow> ''None'' | Some s \<Rightarrow> s)"

text \<open>Line 79: \<open>content[:MAX_CHARS_PER_RESULT] + "..." if len(content) > MAX_CHARS_PER_RESULT else content\<close>.\<close>

definition clean_content :: "string \<Rightarrow> string" where
  "clean_content c =
     (if length c > MAX_CHARS_PER_RESULT then take MAX_CHARS_PER_RESULT c @ ''...'' else c)"

text \<open>
  Lines 77 to 85, the text one result adds to the summary. \<open>len(None)\<close> raises
  \<open>TypeError\<close> when the \<open>content\<close> key holds null.
\<close>

definition format_result :: "search_result \<Rightarrow> pyexn + string" where
  "format_result res =
     (case dict_get (content res) [] of
        None \<Rightarrow> Inl (PyExn ''TypeError'' ''object of type 'NoneType' has no len()'' None)
      | Some c \<Rightarrow>
          Inr (''- **Title**: '' @ fmt (dict_get (title res) ''N/A'') @ nl @
               ''  **Link**: '' @ fmt (dict_get (url res) ''#'') @ nl @
               ''  **Content**: '' @ clean_content c @ nl @ nl))"

text \<open>The loop of line 76 over the results, \<open>summary\<close> being the accumulator.\<close>

fun format_results :: "string \<Rightarrow> search_result list \<Rightarrow> pyexn + string" where
  "format_results summary [] = Inr summary"
| "format_results summary (res # rest) =
     (case format_result res of
        Inl e \<Rightarrow> Inl e
      | Inr entry \<Rightarrow> format_results (summary @ entry) rest)"

text \<open>
  Lines 69 to 85. \<open>response.get('answer')\<close> is falsy for an absent key, null and the
  empty string; \<open>response.get('results', [])\<close> is \<open>None\<close> for a null, and iterating
  it raises \<open>TypeError\<close>.
\<close>

definition format_response :: "string \<Rightarrow> response \<Rightarrow> pyexn + string" where
  "format_response query resp =
     (let header = ''### Results for: '' @ sq @ query @ sq @ nl;
          summary = (case answer resp of
                       Val a \<Rightarrow> if a \<noteq> [] then header @ ''**AI Summary**: '' @ a @ nl @ nl
                                else header
                     | _ \<Rightarrow> header)
      in case results resp of
           Absent \<Rightarrow> Inr summary
         | Null \<Rightarrow> Inl (PyExn ''TypeError'' (sq @ ''NoneType'' @ sq @ '' object is not iterable'') None)
         | Val rs \<Rightarrow> format_results summary rs)"

text \<open>
  What the tool process does to the outside, in order: the log records it writes, the
  construction of the search client and the search calls it sends.
\<close>

datatype server_event = SrvLog level string | ClientInit string | SearchCall string

text \<open>
  The environment of the module: the credential read at line 28 (\<open>None\<close> when the
  variable is not set), the constructor of the search client, which may raise, and the
  client's \<open>search\<close> method. The client belongs to a remote service, so its answer may
  depend on the calls made before: \<open>'w\<close> is the state of that service.
\<close>

record 'w tavily_env =
  TAVILY_API_KEY :: "string option"
  TavilyClient :: "string \<Rightarrow> pyexn + 'w"
  tavily_search :: "'w \<Rightarrow> string \<Rightarrow> (pyexn + response) \<times> 'w"

text \<open>Truth value of an optional string: \<open>None\<close> and the empty string are falsy.\<close>

definition truthy :: "string option \<Rightarrow> bool" where
  "truthy v = (case v of None \<Rightarrow> False | Some s \<Rightarrow> s \<noteq> [])"

text \<open>Line 91, the text appended for a query whose iteration raised.\<close>

definition error_line :: "string \<Rightarrow> pyexn \<Rightarrow> string" where
  "error_line query e = ''Error searching '' @ sq @ query @ sq @ '': '' @ exn_str e"

text \<open>Line 95, the note appended when queries were dropped.\<close>

definition skipped_note :: "nat \<Rightarrow> string" where
  "skipped_note n_queries =
     nl @ ''*Note: '' @ str_nat (n_queries - MAX_QUERIES_PER_BATCH) @
     '' queries were skipped to conserve resources.*''"

text \<open>
  One iteration of the loop, lines 55 to 91: the \<open>try\<close> body is the search call and
  the formatting, and the handler turns whatever either raised into an error line. The
  result is the string appended to \<open>consolidated_results\<close>, the events of the
  iteration and the service's next state.
\<close>

definition search_query ::
  "'w tavily_env \<Rightarrow> 'w \<Rightarrow> string \<Rightarrow> string \<times> server_event list \<times> 'w" where
  "search_query env w query =
     (let started = [SrvLog INFO (''Searching Tavily: '' @ sq @ query @ sq), SearchCall query]
      in case tavily_search env w query of (r, w') \<Rightarrow>
           (case (case r of Inl e \<Rightarrow> Inl e | Inr resp \<Rightarrow> format_response query resp) of
              Inr summary \<Rightarrow> (summary, started, w')
            | Inl e \<Rightarrow>
                (error_line query e,
                 started @ [SrvLog ERROR (''Search failed for '' @ sq @ query @ sq @ '': '' @ exn_str e)],
                 w')))"

text \<open>The loop of line 54 over \<open>processing_queries\<close>.\<close>

fun execution_loop ::
  "'w tavily_env \<Rightarrow> string list \<Rightarrow> string list \<Rightarrow> server_event list \<Rightarrow> 'w \<Rightarrow>
   string list \<times> server_event list" where
  "execution_loop env [] consolidated_results tr w = (consolidated_results, tr)"
| "execution_loop env (query # rest) consolidated_results tr w =
     (case search_query env w query of
        (entry, evs, w') \<Rightarrow> execution_loop env rest (consolidated_results @ [entry]) (tr @ evs) w')"

text \<open>
  The handler, lines 33 to 97. The client is constructed outside every \<open>try\<close>, so an
  exception of its constructor leaves the handler.
\<close>

definition search_tourism ::
  "'w tavily_env \<Rightarrow> string list \<Rightarrow> server_event list \<times> (pyexn + string)" where
  "search_tourism env queries =
     (if \<not> truthy (TAVILY_API_KEY env)
      then ([SrvLog ERROR ''TAVILY_API_KEY is missing. Aborting search.''],
            Inr ''Error: Server misconfigured (Missing API Key).'')
      else
        let key = the (TAVILY_API_KEY env);
            processing_queries = take MAX_QUERIES_PER_BATCH queries;
            tr0 = [SrvLog INFO (''Processing '' @ str_nat (length processing_queries) @
                     '' queries (Requested: '' @ str_nat (length queries) @ '')''),
                   ClientInit key]
        in case TavilyClient env key of
             Inl e \<Rightarrow> (tr0, Inl e)
           | Inr w \<Rightarrow>
               (case execution_loop env processing_queries [] tr0 w of
                  (consolidated_results, tr) \<Rightarrow>
                    (tr, Inr (join_nl
                       (if length queries > MAX_QUERIES_PER_BATCH
                        then consolidated_results @ [skipped_note (length queries)]
                        else consolidated_results)))))"

text \<open>The search calls among the events, in order.\<close>

fun search_calls :: "server_event list \<Rightarrow> string list" where
  "search_calls [] = []"
| "search_calls (SearchCall q # evs) = q # search_calls evs"
| "search_calls (_ # evs) = search_calls evs"

text \<open>
  The answers the service gives to successive calls with the given queries, from state
  \<open>w\<close>: the i-th element is what the i-th call returns or raises.
\<close>

fun outcomes :: "'w tavily_env \<Rightarrow> 'w \<Rightarrow> string list \<Rightarrow> (pyexn + response) list" where
  "outcomes env w [] = []"
| "outcomes env w (q # qs) =
     (case tavily_search env w q of (r, w') \<Rightarrow> r # outcomes env w' qs)"

text \<open>
  The section a query gets from its own answer alone: the error line when the call
  raised, the formatted summary when it returned (the error line again when the
  formatting of that answer raised).
\<close>

definition section_of :: "string \<Rightarrow> pyexn + response \<Rightarrow> string" where
  "section_of query r =
     (case r of
        Inl e \<Rightarrow> error_line query e
      | Inr resp \<Rightarrow>
          (case format_response query resp of
             Inl e \<Rightarrow> error_line query e
           | Inr summary \<Rightarrow> summary))"

text \<open>
  The section of a query as the specification words it, with no loop and no exception: a
  header naming the query, the summary line when the response has a non-empty answer,
  then one entry for each result, with its title, its link and its content cut to 300
  characters and marked when cut. A response is well formed when its \<open>results\<close> key
  and the \<open>content\<close> keys of its results do not hold null.
\<close>

definition summary_line :: "response \<Rightarrow> string" where
  "summary_line resp =
     (case answer resp of
        Val a \<Rightarrow> if a = [] then [] else ''**AI Summary**: '' @ a @ nl @ nl
      | _ \<Rightarrow> [])"

definition result_list :: "response \<Rightarrow> search_result list" where
  "result_list resp = (case results resp of Val rs \<Rightarrow> rs | _ \<Rightarrow> [])"

definition result_entry :: "search_result \<Rightarrow> string" where
  "result_entry r =
     ''- **Title**: '' @ (case title r of Absent \<Rightarrow> ''N/A'' | Null \<Rightarrow> ''None'' | Val t \<Rightarrow> t) @ nl @
     ''  **Link**: '' @ (case url r of Absent \<Rightarrow> ''#'' | Null \<Rightarrow> ''None'' | Val u \<Rightarrow> u) @ nl @
     ''  **Content**: '' @
       (case content r of
          Val c \<Rightarrow> if length c \<le> 300 then c else take 300 c @ ''...''
        | _ \<Rightarrow> []) @ nl @ nl"

definition expected_section :: "string \<Rightarrow> response \<Rightarrow> string" where
  "expected_section q resp =
     ''### Results for: '' @ sq @ q @ sq @ nl @ summary_line resp @
     concat (map result_entry (result_list resp))"

definition well_formed :: "response \<Rightarrow> bool" where
  "well_formed resp =
     (results resp \<noteq> Null \<and> list_all (\<lambda>r. content r \<noteq> Null) (result_list resp))"

section \<open>The orchestrator: \<open>agent.py\<close>\<close>

text \<open>
  The two schemas come from \<open>schemas.py\<close>; the orchestrator reads the fields below and
  nothing else of them.
\<close>

record SearchStrategy =
  reasoning :: string
  queries :: "string list"

record TripItinerary =
  destination :: string
  overview :: string

text \<open>
  \<open>AgentState\<close>, lines 46 to 53. A key of the state dictionary holds a value or is
  not there yet; the same type stands for the partial dictionary a node returns (the
  keys it writes).
\<close>

record AgentState =
  user_request :: "string option"
  search_strategy :: "SearchStrategy option"
  search_results :: "string option"
  final_itinerary :: "TripItinerary option"

definition empty_state :: AgentState where
  "empty_state =
     \<lparr>user_request = None, search_strategy = None, search_results = None, final_itinerary = None\<rparr>"

text \<open>One block of a tool result: \<open>content.type\<close> and, for a text block, \<open>content.text\<close>.\<close>

datatype content_block = TextContent string | ImageContent string string | EmbeddedResource string

fun block_type :: "content_block \<Rightarrow> string" where
  "block_type (TextContent t) = ''text''"
| "block_type (ImageContent d m) = ''image''"
| "block_type (EmbeddedResource r) = ''resource''"

fun block_text :: "content_block \<Rightarrow> string" where
  "block_text (TextContent t) = t"
| "block_text _ = []"

text \<open>
  What the orchestrator does to the outside, in order: log records at level INFO and above
  (the configured level; \<open>logger.debug\<close> writes nothing), the calls of the structured
  generation client (schema, system prompt, human message), and the steps of the exchange
  with the tool process: launching it, the handshake, the tool listing, the tool call and
  the release of channel and process when the \<open>async with\<close> scopes are left. Console
  printing is left out.
\<close>

datatype agent_event =
    Log level string
  | Generate string string string
  | Spawn
  | Initialize
  | ListTools
  | CallTool string "string list"
  | Close
  | SaveItinerary TripItinerary

text \<open>
  The collaborators, as deterministic stubs: the date, the language model behind
  \<open>with_structured_output\<close> for either schema, the steps of the protocol client and
  \<open>save_itinerary_to_markdown\<close> of \<open>outputs.py\<close>. Each is called at most once in
  a session, so a function of its arguments is all a session can observe of it.
  \<open>leave_scopes\<close> is what the two context managers of lines 105 and 106 raise on
  exit when their body raised the given exception: the protocol library runs both on task
  groups, and a task group that is left by an exception raises a group holding it.
\<close>

record world =
  current_date :: string
  generate_strategy :: "string \<Rightarrow> string \<Rightarrow> pyexn + SearchStrategy"
  generate_itinerary :: "string \<Rightarrow> string \<Rightarrow> pyexn + TripItinerary"
  spawn_server :: "pyexn + unit"
  session_initialize :: "pyexn + unit"
  list_tools :: "pyexn + string list"
  call_tool :: "string \<Rightarrow> string list \<Rightarrow> pyexn + content_block list"
  leave_scopes :: "pyexn \<Rightarrow> pyexn"
  save_itinerary_to_markdown :: "TripItinerary \<Rightarrow> pyexn + string option"

text \<open>\<open>state[key]\<close> on a key that is not there.\<close>

definition KeyError :: "string \<Rightarrow> pyexn" where
  "KeyError k = PyExn ''KeyError'' (sq @ k @ sq) None"

text \<open>\<open>planner_node\<close>, lines 57 to 86.\<close>

definition planner_prompt :: "string \<Rightarrow> string" where
  "planner_prompt date =
     ''You are a Travel Architect & Logistics Expert. '' @
     ''Current Date: '' @ date @ ''.'' @ nl @ nl @
     ''Your goal is to design a targeted information retrieval strategy. '' @
     ''Do not generate the itinerary yet. Focus purely on HOW to find the best data.'' @ nl @ nl @
     ''Guidelines:'' @ nl @
     ''1. Use search-engine friendly keywords.'' @ nl @
     ''2. Plan queries for attractions, hidden gems, and logistics.'' @ nl @
     ''3. Target specific historical eras or sites if requested.'' @ nl @ nl @
     ''Explain in 'reasoning' why these searches are necessary.''"

definition planner_node :: "world \<Rightarrow> AgentState \<Rightarrow> agent_event list \<times> (pyexn + AgentState)" where
  "planner_node W state =
     (let started = [Log INFO ''Planner Node: Generating search strategy.''];
          system_prompt = planner_prompt (current_date W)
      in case user_request state of
           None \<Rightarrow> (started, Inl (KeyError ''user_request''))
         | Some request \<Rightarrow>
             (case generate_strategy W system_prompt request of
                Inl e \<Rightarrow> (started @ [Generate ''SearchStrategy'' system_prompt request], Inl e)
              | Inr strategy \<Rightarrow>
                  (started @ [Generate ''SearchStrategy'' system_prompt request],
                   Inr (empty_state\<lparr>search_strategy := Some strategy\<rparr>))))"

text \<open>The loop of lines 118 to 121 over \<open>result.content\<close>.\<close>

fun extract_text :: "string \<Rightarrow> content_block list \<Rightarrow> string" where
  "extract_text final_text [] = final_text"
| "extract_text final_text (c # rest) =
     extract_text (if block_type c = ''text'' then final_text @ block_text c else final_text) rest"

text \<open>
  The body of the \<open>try\<close>, lines 105 to 126. Leaving the two \<open>async with\<close> scopes
  releases channel and process on every path on which they were entered. A failure to
  launch the process is raised before the scopes are entered and arrives as it is; an
  exception of the handshake, the listing or the call is raised inside both scopes and
  arrives as what the scopes raise on exit.
\<close>

definition mcp_exchange :: "world \<Rightarrow> string list \<Rightarrow> agent_event list \<times> (pyexn + AgentState)" where
  "mcp_exchange W qs =
     (case spawn_server W of
        Inl e \<Rightarrow> ([Spawn], Inl e)
      | Inr _ \<Rightarrow>
          (case session_initialize W of
             Inl e \<Rightarrow> ([Spawn, Initialize, Close], Inl (leave_scopes W e))
           | Inr _ \<Rightarrow>
               (case list_tools W of
                  Inl e \<Rightarrow> ([Spawn, Initialize, ListTools, Close], Inl (leave_scopes W e))
                | Inr tools \<Rightarrow>
                    (let calling = [Spawn, Initialize, ListTools,
                                    Log INFO (''Executing search for '' @ str_nat (length qs) @ '' queries.''),
                                    CallTool ''search_tourism'' qs]
                     in case call_tool W ''search_tourism'' qs of
                          Inl e \<Rightarrow> (calling @ [Close], Inl (leave_scopes W e))
                        | Inr result_content \<Rightarrow>
                            (let final_text = extract_text [] result_content
                             in (calling @ [Log INFO ''Search completed successfully.'', Close],
                                 Inr (empty_state\<lparr>search_results := Some final_text\<rparr>)))))))"

text \<open>
  \<open>executor_node\<close>, lines 88 to 130. The handler of line 128 logs and executes
  \<open>raise e\<close>: the exception that leaves the node is the one that reached the handler.
\<close>

definition executor_node :: "world \<Rightarrow> AgentState \<Rightarrow> agent_event list \<times> (pyexn + AgentState)" where
  "executor_node W state =
     (let started = [Log INFO ''Executor Node: Connecting to MCP Server.'']
      in case search_strategy state of
           None \<Rightarrow> (started, Inl (KeyError ''search_strategy''))
         | Some strategy \<Rightarrow>
             (case mcp_exchange W (queries strategy) of
                (evs, Inl e) \<Rightarrow>
                  (started @ evs @ [Log ERROR (''Failed to execute MCP tool: '' @ exn_str e)], Inl e)
              | (evs, Inr written) \<Rightarrow> (started @ evs, Inr written)))"

text \<open>\<open>writer_node\<close>, lines 132 to 153.\<close>

definition writer_prompt :: string where
  "writer_prompt =
     ''You are an expert Travel Guide. '' @
     ''Synthesize a logical itinerary based STRICTLY on the provided search results. '' @
     ''Ensure activities follow a realistic time flow. '' @
     ''Do not invent specific details (like prices) if missing from context.''"

definition writer_node :: "world \<Rightarrow> AgentState \<Rightarrow> agent_event list \<times> (pyexn + AgentState)" where
  "writer_node W state =
     (let started = [Log INFO ''Writer Node: Composing final itinerary.'']
      in case user_request state of
           None \<Rightarrow> (started, Inl (KeyError ''user_request''))
         | Some request \<Rightarrow>
             (case search_results state of
                None \<Rightarrow> (started, Inl (KeyError ''search_results''))
              | Some context \<Rightarrow>
                  (let human = ''User Request: '' @ request @ nl @ nl @ ''Search Context: '' @ context
                   in case generate_itinerary W writer_prompt human of
                        Inl e \<Rightarrow> (started @ [Generate ''TripItinerary'' writer_prompt human], Inl e)
                      | Inr res \<Rightarrow>
                          (started @ [Generate ''TripItinerary'' writer_prompt human],
                           Inr (empty_state\<lparr>final_itinerary := Some res\<rparr>)))))"

subsection \<open>The graph and its runtime\<close>

text \<open>Lines 157 to 168: three nodes, the entry point and the edges; \<open>None\<close> is \<open>END\<close>.\<close>

datatype node = Planner | Executor | Writer

definition entry_point :: node where
  "entry_point = Planner"

fun edge :: "node \<Rightarrow> node option" where
  "edge Planner = Some Executor"
| "edge Executor = Some Writer"
| "edge Writer = None"

fun node_fn :: "world \<Rightarrow> node \<Rightarrow> AgentState \<Rightarrow> agent_event list \<times> (pyexn + AgentState)" where
  "node_fn W Planner = planner_node W"
| "node_fn W Executor = executor_node W"
| "node_fn W Writer = writer_node W"

text \<open>Line 176.\<close>

definition interrupt_before :: "node list" where
  "interrupt_before = [Executor]"

text \<open>
  The graph runtime is the library's. Its behaviour on this graph: the state has one
  last-value channel for each key, a node's returned dictionary overwrites the keys it
  holds, and after every step the checkpointer stores the state and the node to run next
  under the thread id.
\<close>

definition apply_writes :: "AgentState \<Rightarrow> AgentState \<Rightarrow> AgentState" where
  "apply_writes state written =
     \<lparr>user_request = (case user_request written of Some v \<Rightarrow> Some v | None \<Rightarrow> user_request state),
      search_strategy = (case search_strategy written of Some v \<Rightarrow> Some v | None \<Rightarrow> search_strategy state),
      search_results = (case search_results written of Some v \<Rightarrow> Some v | None \<Rightarrow> search_results state),
      final_itinerary = (case final_itinerary written of Some v \<Rightarrow> Some v | None \<Rightarrow> final_itinerary state)\<rparr>"

record checkpoint =
  channel_values :: AgentState
  next_node :: "node option"

type_synonym store = "string \<Rightarrow> checkpoint option"

text \<open>
  Line 171, \<open>memory = MemorySaver()\<close>: the checkpointer is an object in the memory of
  the process, created empty each time the module is loaded.
\<close>

definition MemorySaver :: store where
  "MemorySaver = (\<lambda>thread_id. None)"

text \<open>What a restart of the process leaves of the checkpointer: line 171 runs again.\<close>

definition process_restart :: "store \<Rightarrow> store" where
  "process_restart memory = MemorySaver"

fun rank :: "node option \<Rightarrow> nat" where
  "rank None = 0"
| "rank (Some Writer) = 1"
| "rank (Some Executor) = 2"
| "rank (Some Planner) = 3"

text \<open>
  The loop of the runtime from the node to run next: it stops at \<open>END\<close>, before a node
  of the interrupt list (unless the run is resuming at that very node), and when a node
  raises, in which case the exception leaves the call and the last checkpoint stays.
\<close>

function run_graph ::
  "world \<Rightarrow> node list \<Rightarrow> string \<Rightarrow> bool \<Rightarrow> node option \<Rightarrow> AgentState \<Rightarrow> store \<Rightarrow>
   agent_event list \<Rightarrow> agent_event list \<times> store \<times> (pyexn + AgentState)" where
  "run_graph W ints thread_id resuming None state memory tr = (tr, memory, Inr state)"
| "run_graph W ints thread_id resuming (Some n) state memory tr =
     (if n \<in> set ints \<and> \<not> resuming then (tr, memory, Inr state)
      else case node_fn W n state of
             (evs, Inl e) \<Rightarrow> (tr @ evs, memory, Inl e)
           | (evs, Inr written) \<Rightarrow>
               run_graph W ints thread_id False (edge n) (apply_writes state written)
                 (memory(thread_id \<mapsto>
                    \<lparr>channel_values = apply_writes state written, next_node = edge n\<rparr>))
                 (tr @ evs))"
  by pat_completeness auto
termination
  apply (relation "measure (\<lambda>(W, ints, thread_id, resuming, nxt, state, memory, tr). rank nxt)")
   apply auto
   apply (case_tac n; simp)+
  done

declare run_graph.simps [simp del]

text \<open>
  A call of the compiled graph (\<open>astream\<close> or \<open>ainvoke\<close>) with an input or with
  \<open>None\<close>. An input is written over the thread's state and the run starts at the entry
  point; \<open>None\<close> resumes the thread's checkpoint, and raises when there is none.
\<close>

definition compiled_run ::
  "world \<Rightarrow> node list \<Rightarrow> string \<Rightarrow> AgentState option \<Rightarrow> store \<Rightarrow>
   agent_event list \<times> store \<times> (pyexn + AgentState)" where
  "compiled_run W ints thread_id inp memory =
     (case inp of
        Some written \<Rightarrow>
          (let state0 = apply_writes
                          (case memory thread_id of None \<Rightarrow> empty_state
                           | Some cp \<Rightarrow> channel_values cp) written
           in run_graph W ints thread_id False (Some entry_point) state0
                (memory(thread_id \<mapsto> \<lparr>channel_values = state0, next_node = Some entry_point\<rparr>)) [])
      | None \<Rightarrow>
          (case memory thread_id of
             None \<Rightarrow> ([], memory, Inl (PyExn ''EmptyInputError'' ''Received no input for __start__'' None))
           | Some cp \<Rightarrow> run_graph W ints thread_id True (next_node cp) (channel_values cp) memory []))"

text \<open>Lines 174 to 177: \<open>app\<close> is the graph compiled with the interrupt list.\<close>

definition app ::
  "world \<Rightarrow> string \<Rightarrow> AgentState option \<Rightarrow> store \<Rightarrow>
   agent_event list \<times> store \<times> (pyexn + AgentState)" where
  "app W = compiled_run W interrupt_before"

text \<open>The graph run with no interrupt: the uninterrupted run a session is compared with.\<close>

definition uninterrupted ::
  "world \<Rightarrow> string \<Rightarrow> AgentState option \<Rightarrow> store \<Rightarrow>
   agent_event list \<times> store \<times> (pyexn + AgentState)" where
  "uninterrupted W = compiled_run W []"

text \<open>The input of line 199.\<close>

definition initial_state :: "string \<Rightarrow> AgentState" where
  "initial_state request = empty_state\<lparr>user_request := Some request\<rparr>"

text \<open>\<open>str.lower\<close> on the letters A to Z; no other character lowers to \<open>y\<close>.\<close>

definition lower_char :: "char \<Rightarrow> char" where
  "lower_char c =
     (if 65 \<le> (of_char c :: nat) \<and> (of_char c :: nat) \<le> 90 then char_of ((of_char c :: nat) + 32)
      else c)"

definition lower :: "string \<Rightarrow> string" where
  "lower s = map lower_char s"

text \<open>
  \<open>main\<close>, lines 181 to 234, with the session id, the request and the line typed at
  the prompt as parameters. The result is the itinerary produced, \<open>None\<close> after a
  rejection, or the exception that ended the process.
\<close>

definition main ::
  "world \<Rightarrow> string \<Rightarrow> string \<Rightarrow> string \<Rightarrow> agent_event list \<times> (pyexn + TripItinerary option)" where
  "main W thread_id user_input approval =
     (let tr0 = [Log INFO (''Starting Session ID: '' @ thread_id),
                 Log INFO (''Processing request: '' @ user_input)]
      in case app W thread_id (Some (initial_state user_input)) MemorySaver of
           (tr1, memory1, Inl e) \<Rightarrow> (tr0 @ tr1, Inl e)
         | (tr1, memory1, Inr _) \<Rightarrow>
             (case (case memory1 thread_id of None \<Rightarrow> None
                    | Some cp \<Rightarrow> search_strategy (channel_values cp)) of
                None \<Rightarrow> (tr0 @ tr1, Inl (KeyError ''search_strategy''))
              | Some strategy \<Rightarrow>
                  if lower approval = ''y''
                  then
                    (let tr2 = tr0 @ tr1 @ [Log INFO ''Plan approved. Resuming execution...'']
                     in case app W thread_id None memory1 of
                          (tr3, memory2, Inl e) \<Rightarrow> (tr2 @ tr3, Inl e)
                        | (tr3, memory2, Inr result) \<Rightarrow>
                            (case final_itinerary result of
                               None \<Rightarrow> (tr2 @ tr3, Inl (KeyError ''final_itinerary''))
                             | Some final_trip \<Rightarrow>
                                 (case save_itinerary_to_markdown W final_trip of
                                    Inl e \<Rightarrow> (tr2 @ tr3 @ [SaveItinerary final_trip], Inl e)
                                  | Inr filename \<Rightarrow>
                                      (tr2 @ tr3 @ [SaveItinerary final_trip], Inr (Some final_trip)))))
                  else
                    (tr0 @ tr1 @ [Log WARNING ''Plan rejected by user. Terminating process.''],
                     Inr None)))"

text \<open>The events of the exchange with the tool process.\<close>

fun is_transport :: "agent_event \<Rightarrow> bool" where
  "is_transport Spawn = True"
| "is_transport Initialize = True"
| "is_transport ListTools = True"
| "is_transport (CallTool name args) = True"
| "is_transport Close = True"
| "is_transport _ = False"

fun is_generate :: "agent_event \<Rightarrow> bool" where
  "is_generate (Generate schema system human) = True"
| "is_generate _ = False"

text \<open>
  One step of a session: the node to run next returns its writes, which are applied. The
  configurations of a session are those a chain of steps reaches from the entry point
  with the state that holds the request alone.
\<close>

inductive step :: "world \<Rightarrow> node option \<times> AgentState \<Rightarrow> node option \<times> AgentState \<Rightarrow> bool"
  for W :: world where
  node_step: "snd (node_fn W n state) = Inr written \<Longrightarrow>
              step W (Some n, state) (edge n, apply_writes state written)"

definition reachable :: "world \<Rightarrow> string \<Rightarrow> node option \<times> AgentState \<Rightarrow> bool" where
  "reachable W request c = (step W)\<^sup>*\<^sup>* (Some entry_point, initial_state request) c"

text \<open>Every key that holds a value in the first state holds the same value in the second.\<close>

definition preserved :: "AgentState \<Rightarrow> AgentState \<Rightarrow> bool" where
  "preserved s s' =
     ((user_request s = None \<or> user_request s' = user_request s) \<and>
      (search_strategy s = None \<or> search_strategy s' = search_strategy s) \<and>
      (search_results s = None \<or> search_results s' = search_results s) \<and>
      (final_itinerary s = None \<or> final_itinerary s' = final_itinerary s))"

text \<open>The final artifact of a call of the graph, or the exception it raised.\<close>

definition final_artifact ::
  "agent_event list \<times> store \<times> (pyexn + AgentState) \<Rightarrow> pyexn + TripItinerary option" where
  "final_artifact r = (case snd (snd r) of Inl e \<Rightarrow> Inl e | Inr s \<Rightarrow> Inr (final_itinerary s))"

text \<open>
  Where a session stands determines which keys hold a value: the request alone before
  the planner, the strategy too before the executor, the results too before the writer,
  and all four at the end.
\<close>

definition stage_inv :: "string \<Rightarrow> node option \<times> AgentState \<Rightarrow> bool" where
  "stage_inv request c =
     (case c of (nxt, s) \<Rightarrow>
        user_request s = Some request \<and>
        (case nxt of
           Some Planner \<Rightarrow>
             search_strategy s = None \<and> search_results s = None \<and> final_itinerary s = None
         | Some Executor \<Rightarrow>
             search_strategy s \<noteq> None \<and> search_results s = None \<and> final_itinerary s = None
         | Some Writer \<Rightarrow>
             search_strategy s \<noteq> None \<and> search_results s \<noteq> None \<and> final_itinerary s = None
         | None \<Rightarrow>
             search_strategy s \<noteq> None \<and> search_results s \<noteq> None \<and> final_itinerary s \<noteq> None))"

section \<open>Concrete environments\<close>

text \<open>
  A search service that times out on the query \<open>bad\<close> and answers every other query
  with a summary and one result, behind a client that constructs.
\<close>

definition demo_response :: response where
  "demo_response =
     \<lparr>answer = Val ''Yes'',
      results = Val [\<lparr>title = Val ''T'', url = Absent, content = Val ''text''\<rparr>]\<rparr>"

definition demo_search :: "nat \<Rightarrow> string \<Rightarrow> (pyexn + response) \<times> nat" where
  "demo_search w q =
     (if q = ''bad'' then Inl (PyExn ''TimeoutError'' ''timed out'' None)
      else Inr demo_response,
      Suc w)"

definition demo_env :: "nat tavily_env" where
  "demo_env = \<lparr>TAVILY_API_KEY = Some ''k'', TavilyClient = (\<lambda>_. Inr 0),
               tavily_search = demo_search\<rparr>"

text \<open>
  A service that answers with no summary and two results: one with a content of 301
  characters, one with a short content, no title and a null link.
\<close>

definition long_response :: response where
  "long_response =
     \<lparr>answer = Absent,
      results = Val [\<lparr>title = Val ''T'', url = Val ''u'',
                      content = Val (replicate 301 (CHR ''x''))\<rparr>,
                     \<lparr>title = Absent, url = Null, content = Val ''short''\<rparr>]\<rparr>"

definition long_env :: "nat tavily_env" where
  "long_env = demo_env\<lparr>tavily_search := (\<lambda>w q. (Inr long_response, Suc w))\<rparr>"

text \<open>
  Stubs for the orchestrator: a planner that returns two queries, a tool process that
  answers with two text blocks around an image block, a writer that returns an itinerary;
  and the same world with a tool call that raises. The three states are those of the
  session for the request \<open>r\<close> after each node.
\<close>

definition demo_strategy :: SearchStrategy where
  "demo_strategy = \<lparr>reasoning = ''why'', queries = [''X hiking trail'', ''live music venue X'']\<rparr>"

definition demo_itinerary :: TripItinerary where
  "demo_itinerary = \<lparr>destination = ''Rio de Janeiro'', overview = ''three days''\<rparr>"

definition demo_blocks :: "content_block list" where
  "demo_blocks = [TextContent ''abc'', ImageContent ''data'' ''image/png'', TextContent ''def'']"

text \<open>What a task group raises when the exception \<open>e\<close> leaves it.\<close>

definition task_group_exit :: "pyexn \<Rightarrow> pyexn" where
  "task_group_exit e = ExceptionGroup ''unhandled errors in a TaskGroup'' [e]"

definition demo_world :: world where
  "demo_world =
     \<lparr>current_date = ''2025-01-01'',
      generate_strategy = (\<lambda>system human. Inr demo_strategy),
      generate_itinerary = (\<lambda>system human. Inr demo_itinerary),
      spawn_server = Inr (),
      session_initialize = Inr (),
      list_tools = Inr [''search_tourism''],
      call_tool = (\<lambda>name args. Inr demo_blocks),
      leave_scopes = (\<lambda>e. task_group_exit (task_group_exit e)),
      save_itinerary_to_markdown = (\<lambda>trip. Inr (Some ''trip.md''))\<rparr>"

definition boom :: pyexn where
  "boom = PyExn ''RuntimeError'' ''boom'' None"

definition failing_world :: world where
  "failing_world = demo_world\<lparr>call_tool := (\<lambda>name args. Inl boom)\<rparr>"

definition demo_planned :: AgentState where
  "demo_planned =
     \<lparr>user_request = Some ''r'', search_strategy = Some demo_strategy,
      search_results = None, final_itinerary = None\<rparr>"

definition demo_searched :: AgentState where
  "demo_searched = demo_planned\<lparr>search_results := Some ''abcdef''\<rparr>"

definition demo_final :: AgentState where
  "demo_final = demo_searched\<lparr>final_itinerary := Some demo_itinerary\<rparr>"

definition demo_memory :: store where
  "demo_memory =
     MemorySaver(''t'' \<mapsto> \<lparr>channel_values = demo_planned, next_node = Some Executor\<rparr>)"

section \<open>Properties of the tool process\<close>

subsection \<open>The loop, one query at a time\<close>

lemma search_query_eq:
  "search_query env w q =
     (section_of q (fst (tavily_search env w q)),
      fst (snd (search_query env w q)),
      snd (tavily_search env w q))"
  by (auto simp: search_query_def section_of_def Let_def split: prod.splits sum.splits)

lemma search_calls_append: "search_calls (xs @ ys) = search_calls xs @ search_calls ys"
  by (induction xs rule: search_calls.induct) auto

lemma search_query_calls: "search_calls (fst (snd (search_query env w q))) = [q]"
  by (auto simp: search_query_def Let_def split: prod.splits sum.splits)

lemma execution_loop_sections:
  "fst (execution_loop env qs acc tr w) = acc @ map2 section_of qs (outcomes env w qs)"
proof (induction qs arbitrary: acc tr w)
  case Nil
  then show ?case by simp
next
  case (Cons q qs)
  obtain entry evs w' where sq: "search_query env w q = (entry, evs, w')"
    by (cases "search_query env w q") auto
  with search_query_eq [of env w q]
  have e: "entry = section_of q (fst (tavily_search env w q))" and w': "w' = snd (tavily_search env w q)"
    by auto
  show ?case using Cons.IH [of "acc @ [entry]" "tr @ evs" w'] sq e w'
    by (simp split: prod.splits)
qed

lemma execution_loop_calls:
  "search_calls (snd (execution_loop env qs acc tr w)) = search_calls tr @ qs"
proof (induction qs arbitrary: acc tr w)
  case Nil
  then show ?case by simp
next
  case (Cons q qs)
  obtain entry evs w' where sq: "search_query env w q = (entry, evs, w')"
    by (cases "search_query env w q") auto
  with search_query_calls [of env w q] have "search_calls evs = [q]" by simp
  then show ?case using Cons.IH [of "acc @ [entry]" "tr @ evs" w'] sq
    by (simp add: search_calls_append)
qed

lemma length_outcomes: "length (outcomes env w qs) = length qs"
  by (induction qs arbitrary: w) (auto split: prod.splits)

lemma join_nl_snoc: "xs \<noteq> [] \<Longrightarrow> join_nl (xs @ [x]) = join_nl xs @ nl @ x"
  by (induction xs rule: join_nl.induct) auto

lemma search_tourism_unfold:
  assumes k: "truthy (TAVILY_API_KEY env)"
    and c: "TavilyClient env (the (TAVILY_API_KEY env)) = Inr w0"
  shows "\<exists>tr0. search_calls tr0 = [] \<and>
           search_tourism env qs =
             (snd (execution_loop env (take 3 qs) [] tr0 w0),
              Inr (join_nl (fst (execution_loop env (take 3 qs) [] tr0 w0) @
                     (if length qs > 3 then [skipped_note (length qs)] else []))))"
proof -
  define tr0 where "tr0 = [SrvLog INFO (''Processing '' @ str_nat (length (take MAX_QUERIES_PER_BATCH qs)) @
                     '' queries (Requested: '' @ str_nat (length qs) @ '')''),
                   ClientInit (the (TAVILY_API_KEY env))]"
  have a: "search_calls tr0 = []" unfolding tr0_def by simp
  have "search_tourism env qs =
          (case execution_loop env (take MAX_QUERIES_PER_BATCH qs) [] tr0 w0 of
             (consolidated_results, tr) \<Rightarrow>
               (tr, Inr (join_nl
                  (if length qs > MAX_QUERIES_PER_BATCH
                   then consolidated_results @ [skipped_note (length qs)]
                   else consolidated_results))))"
    unfolding search_tourism_def Let_def tr0_def using k c by simp
  then have "search_tourism env qs =
             (snd (execution_loop env (take 3 qs) [] tr0 w0),
              Inr (join_nl (fst (execution_loop env (take 3 qs) [] tr0 w0) @
                     (if length qs > 3 then [skipped_note (length qs)] else []))))"
    by (simp add: MAX_QUERIES_PER_BATCH_def split: prod.splits)
  with a show ?thesis by blast
qed

lemma search_tourism_ok:
  assumes k: "truthy (TAVILY_API_KEY env)"
    and c: "TavilyClient env (the (TAVILY_API_KEY env)) = Inr w0"
  shows "snd (search_tourism env qs) =
           Inr (join_nl (map2 section_of (take 3 qs) (outcomes env w0 (take 3 qs)) @
                         (if length qs > 3 then [skipped_note (length qs)] else [])))"
    and "search_calls (fst (search_tourism env qs)) = take 3 qs"
proof -
  obtain tr0 where a: "search_calls tr0 = []"
    and st: "search_tourism env qs =
             (snd (execution_loop env (take 3 qs) [] tr0 w0),
              Inr (join_nl (fst (execution_loop env (take 3 qs) [] tr0 w0) @
                     (if length qs > 3 then [skipped_note (length qs)] else []))))"
    using search_tourism_unfold [OF k c] by blast
  show "snd (search_tourism env qs) =
           Inr (join_nl (map2 section_of (take 3 qs) (outcomes env w0 (take 3 qs)) @
                         (if length qs > 3 then [skipped_note (length qs)] else [])))"
    unfolding st execution_loop_sections by simp
  show "search_calls (fst (search_tourism env qs)) = take 3 qs"
    unfolding st using a by (simp add: execution_loop_calls)
qed


lemma demo_env_key: "truthy (TAVILY_API_KEY demo_env)"
  by (simp add: demo_env_def truthy_def)

lemma demo_env_client: "TavilyClient demo_env (the (TAVILY_API_KEY demo_env)) = Inr 0"
  by (simp add: demo_env_def)

subsection \<open>The section of one response\<close>

lemma format_result_closed:
  "content r \<noteq> Null \<Longrightarrow> format_result r = Inr (result_entry r)"
  by (cases "content r"; cases "title r"; cases "url r")
    (simp_all add: format_result_def dict_get_def fmt_def result_entry_def clean_content_def
      MAX_CHARS_PER_RESULT_def)

lemma format_result_null:
  "content r = Null \<Longrightarrow>
   format_result r = Inl (PyExn ''TypeError'' ''object of type 'NoneType' has no len()'' None)"
  by (simp add: format_result_def dict_get_def)

lemma format_results_closed:
  "list_all (\<lambda>r. content r \<noteq> Null) rs \<Longrightarrow>
   format_results summary rs = Inr (summary @ concat (map result_entry rs))"
  by (induction rs arbitrary: summary) (simp_all add: format_result_closed)

lemma format_results_null:
  "\<not> list_all (\<lambda>r. content r \<noteq> Null) rs \<Longrightarrow>
   format_results summary rs =
     Inl (PyExn ''TypeError'' ''object of type 'NoneType' has no len()'' None)"
proof (induction rs arbitrary: summary)
  case Nil
  then show ?case by simp
next
  case (Cons r rs)
  show ?case
  proof (cases "content r = Null")
    case True
    then show ?thesis by (simp add: format_result_null)
  next
    case False
    with Cons.prems have "\<not> list_all (\<lambda>r. content r \<noteq> Null) rs" by simp
    from Cons.IH [OF this] False show ?thesis by (simp add: format_result_closed)
  qed
qed

lemma format_response_closed:
  "well_formed resp \<Longrightarrow> format_response q resp = Inr (expected_section q resp)"
  by (cases "results resp"; cases "answer resp")
    (simp_all add: format_response_def well_formed_def expected_section_def summary_line_def
      result_list_def Let_def format_results_closed)

lemma format_response_bad:
  "\<not> well_formed resp \<Longrightarrow>
   format_response q resp =
     Inl (PyExn ''TypeError''
            (if results resp = Null then sq @ ''NoneType'' @ sq @ '' object is not iterable''
             else ''object of type 'NoneType' has no len()'') None)"
  by (cases "results resp")
    (simp_all add: format_response_def well_formed_def result_list_def Let_def
      format_results_null)

lemma section_of_returned:
  "section_of q (Inr resp) =
     (if well_formed resp then expected_section q resp
      else ''Error searching '' @ sq @ q @ sq @ '': '' @
           (if results resp = Null then sq @ ''NoneType'' @ sq @ '' object is not iterable''
            else ''object of type 'NoneType' has no len()''))"
  by (simp add: section_of_def format_response_closed format_response_bad error_line_def)

lemma long_env_facts:
  "truthy (TAVILY_API_KEY long_env)"
  "TavilyClient long_env (the (TAVILY_API_KEY long_env)) = Inr 0"
  "tavily_search long_env 0 ''q'' = (Inr long_response, 1)"
  "well_formed long_response"
  by (simp_all add: long_env_def demo_env_def truthy_def well_formed_def result_list_def
      long_response_def)

text \<open>
  C6. A result content longer than \<open>MAX_CHARS_PER_RESULT\<close> = 300 characters is rendered
  as exactly its first 300 characters followed by the marker \<open>...\<close>; a content of at
  most 300 characters is rendered unchanged. This holds of the expression of line 79, of
  the entry one result adds, of the loop over the results (the text it returns is the
  summary followed by the entries of all results, in order), and of the handler: for a
  query whose call returns a well formed response, the output of \<open>search_tourism\<close> is
  the header, the summary line and the entries with the contents so rendered.
\<close>

theorem clean_content_truncates:
  "(length c > 300 \<longrightarrow>
      clean_content c = take 300 c @ ''...'' \<and> length (clean_content c) = 303) \<and>
   (length c \<le> 300 \<longrightarrow> clean_content c = c) \<and>
   format_result \<lparr>title = t, url = u, content = Val c\<rparr> =
     Inr (''- **Title**: '' @ fmt (dict_get t ''N/A'') @ nl @
          ''  **Link**: '' @ fmt (dict_get u ''#'') @ nl @
          ''  **Content**: '' @ (if length c > 300 then take 300 c @ ''...'' else c) @ nl @ nl) \<and>
   result_entry \<lparr>title = t, url = u, content = Val c\<rparr> =
     ''- **Title**: '' @ fmt (dict_get t ''N/A'') @ nl @
     ''  **Link**: '' @ fmt (dict_get u ''#'') @ nl @
     ''  **Content**: '' @ (if length c > 300 then take 300 c @ ''...'' else c) @ nl @ nl \<and>
   (list_all (\<lambda>r. content r \<noteq> Null) rs \<longrightarrow>
      format_results summary rs = Inr (summary @ concat (map result_entry rs))) \<and>
   (truthy (TAVILY_API_KEY env) \<longrightarrow>
    TavilyClient env (the (TAVILY_API_KEY env)) = Inr w0 \<longrightarrow>
    tavily_search env w0 q = (Inr resp, w1) \<longrightarrow>
    well_formed resp \<longrightarrow>
      snd (search_tourism env [q]) =
        Inr (''### Results for: '' @ sq @ q @ sq @ nl @ summary_line resp @
             concat (map result_entry (result_list resp))))"
proof -
  have a: "(length c > 300 \<longrightarrow>
      clean_content c = take 300 c @ ''...'' \<and> length (clean_content c) = 303) \<and>
   (length c \<le> 300 \<longrightarrow> clean_content c = c) \<and>
   format_result \<lparr>title = t, url = u, content = Val c\<rparr> =
     Inr (''- **Title**: '' @ fmt (dict_get t ''N/A'') @ nl @
          ''  **Link**: '' @ fmt (dict_get u ''#'') @ nl @
          ''  **Content**: '' @ (if length c > 300 then take 300 c @ ''...'' else c) @ nl @ nl)"
    by (simp add: clean_content_def MAX_CHARS_PER_RESULT_def format_result_def dict_get_def)
  have b: "result_entry \<lparr>title = t, url = u, content = Val c\<rparr> =
     ''- **Title**: '' @ fmt (dict_get t ''N/A'') @ nl @
     ''  **Link**: '' @ fmt (dict_get u ''#'') @ nl @
     ''  **Content**: '' @ (if length c > 300 then take 300 c @ ''...'' else c) @ nl @ nl"
    by (cases t; cases u) (simp_all add: result_entry_def fmt_def dict_get_def)
  have d: "snd (search_tourism env [q]) =
        Inr (''### Results for: '' @ sq @ q @ sq @ nl @ summary_line resp @
             concat (map result_entry (result_list resp)))"
    if k: "truthy (TAVILY_API_KEY env)"
      and cl: "TavilyClient env (the (TAVILY_API_KEY env)) = Inr w0"
      and s: "tavily_search env w0 q = (Inr resp, w1)"
      and w: "well_formed resp"
  proof -
    have "snd (search_tourism env [q]) = Inr (join_nl [section_of q (Inr resp)])"
      using search_tourism_ok(1) [OF k cl, of "[q]"] s by simp
    then show ?thesis using w by (simp add: section_of_returned expected_section_def)
  qed
  show ?thesis using a b d by (simp add: format_results_closed)
qed

theorem clean_content_truncates_witness:
  "length (replicate 301 (CHR ''a'')) > 300 \<and>
   clean_content (replicate 301 (CHR ''a'')) = replicate 300 (CHR ''a'') @ ''...'' \<and>
   length (clean_content (replicate 301 (CHR ''a''))) = 303 \<and>
   length ''short'' \<le> 300 \<and> clean_content ''short'' = ''short'' \<and>
   truthy (TAVILY_API_KEY long_env) \<and>
   TavilyClient long_env (the (TAVILY_API_KEY long_env)) = Inr 0 \<and>
   tavily_search long_env 0 ''q'' = (Inr long_response, 1) \<and>
   well_formed long_response \<and>
   snd (search_tourism long_env [''q'']) =
     Inr (''### Results for: '' @ sq @ ''q'' @ sq @ nl @
          ''- **Title**: T'' @ nl @ ''  **Link**: u'' @ nl @
          ''  **Content**: '' @ replicate 300 (CHR ''x'') @ ''...'' @ nl @ nl @
          ''- **Title**: N/A'' @ nl @ ''  **Link**: None'' @ nl @
          ''  **Content**: short'' @ nl @ nl)"
proof -
  have a: "length (replicate 301 (CHR ''a'')) > 300 \<and>
   clean_content (replicate 301 (CHR ''a'')) = replicate 300 (CHR ''a'') @ ''...'' \<and>
   length (clean_content (replicate 301 (CHR ''a''))) = 303 \<and>
   length ''short'' \<le> 300 \<and> clean_content ''short'' = ''short''"
    using clean_content_truncates [where c = "replicate 301 (CHR ''a'')", THEN conjunct1]
      clean_content_truncates [where c = "''short''", THEN conjunct2, THEN conjunct1]
    by simp
  have "snd (search_tourism long_env [''q'']) =
        Inr (''### Results for: '' @ sq @ ''q'' @ sq @ nl @ summary_line long_response @
             concat (map result_entry (result_list long_response)))"
    by (rule clean_content_truncates [THEN conjunct2, THEN conjunct2, THEN conjunct2,
          THEN conjunct2, THEN conjunct2, THEN mp, THEN mp, THEN mp, THEN mp,
          OF long_env_facts(1) long_env_facts(2) long_env_facts(3) long_env_facts(4)])
  then have b: "snd (search_tourism long_env [''q'']) =
     Inr (''### Results for: '' @ sq @ ''q'' @ sq @ nl @
          ''- **Title**: T'' @ nl @ ''  **Link**: u'' @ nl @
          ''  **Content**: '' @ replicate 300 (CHR ''x'') @ ''...'' @ nl @ nl @
          ''- **Title**: N/A'' @ nl @ ''  **Link**: None'' @ nl @
          ''  **Content**: short'' @ nl @ nl)"
    by (simp add: long_response_def summary_line_def result_list_def result_entry_def)
  show ?thesis
    using a long_env_facts b by simp
qed

text \<open>
  C4. With the credential present and the client constructed, a call with more than
  \<open>MAX_QUERIES_PER_BATCH\<close> = 3 queries sends exactly the first three queries to the
  search service, in input order, and none of the others; its output is the three
  sections joined by line ends, followed by a line end and the note, and the note holds
  the decimal count of the skipped queries, the length of the input minus 3.
\<close>

theorem search_tourism_batch_cap:
  assumes "length qs > 3"
    and "truthy (TAVILY_API_KEY env)"
    and "TavilyClient env (the (TAVILY_API_KEY env)) = Inr w0"
  shows "search_calls (fst (search_tourism env qs)) = take 3 qs \<and>
         (\<exists>sections. length sections = 3 \<and>
            sections = map2 section_of (take 3 qs) (outcomes env w0 (take 3 qs)) \<and>
            snd (search_tourism env qs) =
              Inr (join_nl sections @ nl @ skipped_note (length qs))) \<and>
         skipped_note (length qs) =
           nl @ ''*Note: '' @ str_nat (length qs - 3) @
           '' queries were skipped to conserve resources.*''"
proof -
  let ?s = "map2 section_of (take 3 qs) (outcomes env w0 (take 3 qs))"
  have len: "length ?s = 3" using assms(1) by (simp add: length_outcomes)
  then have ne: "?s \<noteq> []" by auto
  have "snd (search_tourism env qs) = Inr (join_nl (?s @ [skipped_note (length qs)]))"
    using search_tourism_ok(1) [OF assms(2) assms(3), of qs] assms(1) by simp
  then have "snd (search_tourism env qs) = Inr (join_nl ?s @ nl @ skipped_note (length qs))"
    using join_nl_snoc [OF ne] by simp
  with len search_tourism_ok(2) [OF assms(2) assms(3), of qs] show ?thesis
    by (simp add: skipped_note_def MAX_QUERIES_PER_BATCH_def)
qed

lemma skipped_note_5:
  "skipped_note 5 = nl @ ''*Note: 2 queries were skipped to conserve resources.*''"
  by code_simp

theorem search_tourism_batch_cap_witness:
  "length [''a'', ''bad'', ''c'', ''d'', ''e''] > 3 \<and>
   truthy (TAVILY_API_KEY demo_env) \<and>
   TavilyClient demo_env (the (TAVILY_API_KEY demo_env)) = Inr 0 \<and>
   search_calls (fst (search_tourism demo_env [''a'', ''bad'', ''c'', ''d'', ''e''])) =
     [''a'', ''bad'', ''c''] \<and>
   (\<exists>body. snd (search_tourism demo_env [''a'', ''bad'', ''c'', ''d'', ''e'']) =
      Inr (body @ nl @ nl @ ''*Note: 2 queries were skipped to conserve resources.*''))"
proof -
  have len: "length [''a'', ''bad'', ''c'', ''d'', ''e''] > 3" by simp
  have l5: "length [''a'', ''bad'', ''c'', ''d'', ''e''] = 5" by simp
  note t = search_tourism_batch_cap [OF len demo_env_key demo_env_client]
  have "search_calls (fst (search_tourism demo_env [''a'', ''bad'', ''c'', ''d'', ''e''])) =
     take 3 [''a'', ''bad'', ''c'', ''d'', ''e'']"
    by (rule t [THEN conjunct1])
  then have calls: "search_calls (fst (search_tourism demo_env [''a'', ''bad'', ''c'', ''d'', ''e''])) =
     [''a'', ''bad'', ''c'']"
    by simp
  obtain sections where all: "length sections = 3 \<and>
      sections = map2 section_of (take 3 [''a'', ''bad'', ''c'', ''d'', ''e''])
                   (outcomes demo_env 0 (take 3 [''a'', ''bad'', ''c'', ''d'', ''e''])) \<and>
      snd (search_tourism demo_env [''a'', ''bad'', ''c'', ''d'', ''e'']) =
      Inr (join_nl sections @ nl @ skipped_note (length [''a'', ''bad'', ''c'', ''d'', ''e'']))"
    using t [THEN conjunct2, THEN conjunct1] by (rule exE)
  have "snd (search_tourism demo_env [''a'', ''bad'', ''c'', ''d'', ''e'']) =
      Inr (join_nl sections @ nl @ nl @ ''*Note: 2 queries were skipped to conserve resources.*'')"
    using all [THEN conjunct2, THEN conjunct2] unfolding l5 skipped_note_5 .
  then have out: "\<exists>body. snd (search_tourism demo_env [''a'', ''bad'', ''c'', ''d'', ''e'']) =
      Inr (body @ nl @ nl @ ''*Note: 2 queries were skipped to conserve resources.*'')"
    by (rule exI [of _ "join_nl sections"])
  show ?thesis
    by (rule conjI [OF len conjI [OF demo_env_key conjI [OF demo_env_client conjI [OF calls out]]]])
qed

text \<open>
  C7. With the credential present and the client constructed, the output has one section
  for each accepted query (the first three), in input order, whatever the search calls
  do: every accepted query is sent to the service, and each section is determined by the
  answer to its own query alone. The section of a query whose call raised is the error
  line naming that query and the exception's text. The section of a query whose call
  returned a well formed response is the header naming the query, the summary line and
  the entries of its results; when the response holds a null where the formatting needs
  a list or a string, the section is the error line with the text of that \<open>TypeError\<close>.
  A failure changes the section of its own query only.
\<close>

theorem search_tourism_failure_isolated:
  assumes "truthy (TAVILY_API_KEY env)"
    and "TavilyClient env (the (TAVILY_API_KEY env)) = Inr w0"
  shows "\<exists>sections.
           snd (search_tourism env qs) =
             Inr (join_nl (sections @
                    (if length qs > 3 then [skipped_note (length qs)] else []))) \<and>
           length sections = length (take 3 qs) \<and>
           search_calls (fst (search_tourism env qs)) = take 3 qs \<and>
           (\<forall>i < length (take 3 qs).
              (\<forall>e. outcomes env w0 (take 3 qs) ! i = Inl e \<longrightarrow>
                   sections ! i =
                     ''Error searching '' @ sq @ take 3 qs ! i @ sq @ '': '' @ exn_str e) \<and>
              (\<forall>resp summary. outcomes env w0 (take 3 qs) ! i = Inr resp \<longrightarrow>
                   format_response (take 3 qs ! i) resp = Inr summary \<longrightarrow>
                   sections ! i = summary) \<and>
              (\<forall>resp. outcomes env w0 (take 3 qs) ! i = Inr resp \<longrightarrow> well_formed resp \<longrightarrow>
                   sections ! i =
                     ''### Results for: '' @ sq @ take 3 qs ! i @ sq @ nl @ summary_line resp @
                     concat (map result_entry (result_list resp))) \<and>
              (\<forall>resp. outcomes env w0 (take 3 qs) ! i = Inr resp \<longrightarrow> \<not> well_formed resp \<longrightarrow>
                   sections ! i =
                     ''Error searching '' @ sq @ take 3 qs ! i @ sq @ '': '' @
                     (if results resp = Null
                      then sq @ ''NoneType'' @ sq @ '' object is not iterable''
                      else ''object of type 'NoneType' has no len()'')))"
proof -
  let ?qs = "take 3 qs"
  let ?s = "map2 section_of ?qs (outcomes env w0 ?qs)"
  have len: "length ?s = length ?qs" by (simp add: length_outcomes)
  have nth: "?s ! i = section_of (?qs ! i) (outcomes env w0 ?qs ! i)" if "i < length ?qs" for i
    using that by (simp add: length_outcomes)
  have per: "\<forall>i < length ?qs.
              (\<forall>e. outcomes env w0 ?qs ! i = Inl e \<longrightarrow>
                   ?s ! i = ''Error searching '' @ sq @ ?qs ! i @ sq @ '': '' @ exn_str e) \<and>
              (\<forall>resp summary. outcomes env w0 ?qs ! i = Inr resp \<longrightarrow>
                   format_response (?qs ! i) resp = Inr summary \<longrightarrow> ?s ! i = summary) \<and>
              (\<forall>resp. outcomes env w0 ?qs ! i = Inr resp \<longrightarrow> well_formed resp \<longrightarrow>
                   ?s ! i =
                     ''### Results for: '' @ sq @ ?qs ! i @ sq @ nl @ summary_line resp @
                     concat (map result_entry (result_list resp))) \<and>
              (\<forall>resp. outcomes env w0 ?qs ! i = Inr resp \<longrightarrow> \<not> well_formed resp \<longrightarrow>
                   ?s ! i =
                     ''Error searching '' @ sq @ ?qs ! i @ sq @ '': '' @
                     (if results resp = Null
                      then sq @ ''NoneType'' @ sq @ '' object is not iterable''
                      else ''object of type 'NoneType' has no len()''))"
  proof (intro allI impI conjI)
    fix i e assume "i < length ?qs" "outcomes env w0 ?qs ! i = Inl e"
    then show "?s ! i = ''Error searching '' @ sq @ ?qs ! i @ sq @ '': '' @ exn_str e"
      using nth [of i] by (simp add: section_of_def error_line_def)
  next
    fix i resp summary
    assume "i < length ?qs" "outcomes env w0 ?qs ! i = Inr resp"
      "format_response (?qs ! i) resp = Inr summary"
    then show "?s ! i = summary"
      using nth [of i] by (simp add: section_of_def)
  next
    fix i resp
    assume "i < length ?qs" "outcomes env w0 ?qs ! i = Inr resp" "well_formed resp"
    then show "?s ! i = ''### Results for: '' @ sq @ ?qs ! i @ sq @ nl @ summary_line resp @
                     concat (map result_entry (result_list resp))"
      using nth [of i] by (simp add: section_of_returned expected_section_def)
  next
    fix i resp
    assume "i < length ?qs" "outcomes env w0 ?qs ! i = Inr resp" "\<not> well_formed resp"
    then show "?s ! i = ''Error searching '' @ sq @ ?qs ! i @ sq @ '': '' @
                     (if results resp = Null
                      then sq @ ''NoneType'' @ sq @ '' object is not iterable''
                      else ''object of type 'NoneType' has no len()'')"
      using nth [of i] by (simp only: section_of_returned if_False)
  qed
  show ?thesis
    apply (rule exI [of _ ?s])
    using search_tourism_ok [OF assms, of qs] len per by simp
qed

theorem search_tourism_failure_isolated_witness:
  "truthy (TAVILY_API_KEY demo_env) \<and>
   TavilyClient demo_env (the (TAVILY_API_KEY demo_env)) = Inr 0 \<and>
   outcomes demo_env 0 (take 3 [''a'', ''bad'', ''c'']) ! 1 =
     Inl (PyExn ''TimeoutError'' ''timed out'' None) \<and>
   outcomes demo_env 0 (take 3 [''a'', ''bad'', ''c'']) ! 2 = Inr demo_response \<and>
   well_formed demo_response \<and>
   (\<exists>sections.
      snd (search_tourism demo_env [''a'', ''bad'', ''c'']) = Inr (join_nl sections) \<and>
      length sections = 3 \<and>
      sections ! 1 = ''Error searching '' @ sq @ ''bad'' @ sq @ '': timed out'' \<and>
      sections ! 2 =
        ''### Results for: '' @ sq @ ''c'' @ sq @ nl @ ''**AI Summary**: Yes'' @ nl @ nl @
        ''- **Title**: T'' @ nl @ ''  **Link**: #'' @ nl @ ''  **Content**: text'' @ nl @ nl) \<and>
   search_calls (fst (search_tourism demo_env [''a'', ''bad'', ''c''])) = [''a'', ''bad'', ''c'']"
proof -
  have o: "outcomes demo_env 0 (take 3 [''a'', ''bad'', ''c'']) ! 1 =
             Inl (PyExn ''TimeoutError'' ''timed out'' None)"
    by (simp add: demo_env_def demo_search_def)
  have o2: "outcomes demo_env 0 (take 3 [''a'', ''bad'', ''c'']) ! 2 = Inr demo_response"
    by (simp add: demo_env_def demo_search_def)
  have wf: "well_formed demo_response"
    by (simp add: well_formed_def result_list_def demo_response_def)
  have lt: "1 < length (take 3 [''a'', ''bad'', ''c''])" by simp
  have lt2: "2 < length (take 3 [''a'', ''bad'', ''c''])" by simp
  obtain sections where all:
    "snd (search_tourism demo_env [''a'', ''bad'', ''c'']) =
           Inr (join_nl (sections @
                  (if length [''a'', ''bad'', ''c''] > 3
                   then [skipped_note (length [''a'', ''bad'', ''c''])] else []))) \<and>
     length sections = length (take 3 [''a'', ''bad'', ''c'']) \<and>
     search_calls (fst (search_tourism demo_env [''a'', ''bad'', ''c''])) =
       take 3 [''a'', ''bad'', ''c''] \<and>
     (\<forall>i < length (take 3 [''a'', ''bad'', ''c'']).
              (\<forall>e. outcomes demo_env 0 (take 3 [''a'', ''bad'', ''c'']) ! i = Inl e \<longrightarrow>
                   sections ! i =
                     ''Error searching '' @ sq @ take 3 [''a'', ''bad'', ''c''] ! i @ sq @ '': '' @ exn_str e) \<and>
              (\<forall>resp summary. outcomes demo_env 0 (take 3 [''a'', ''bad'', ''c'']) ! i = Inr resp \<longrightarrow>
                   format_response (take 3 [''a'', ''bad'', ''c''] ! i) resp = Inr summary \<longrightarrow>
                   sections ! i = summary) \<and>
              (\<forall>resp. outcomes demo_env 0 (take 3 [''a'', ''bad'', ''c'']) ! i = Inr resp \<longrightarrow>
                   well_formed resp \<longrightarrow>
                   sections ! i =
                     ''### Results for: '' @ sq @ take 3 [''a'', ''bad'', ''c''] ! i @ sq @ nl @
                     summary_line resp @ concat (map result_entry (result_list resp))) \<and>
              (\<forall>resp. outcomes demo_env 0 (take 3 [''a'', ''bad'', ''c'']) ! i = Inr resp \<longrightarrow>
                   \<not> well_formed resp \<longrightarrow>
                   sections ! i =
                     ''Error searching '' @ sq @ take 3 [''a'', ''bad'', ''c''] ! i @ sq @ '': '' @
                     (if results resp = Null
                      then sq @ ''NoneType'' @ sq @ '' object is not iterable''
                      else ''object of type 'NoneType' has no len()'')))"
    using search_tourism_failure_isolated [OF demo_env_key demo_env_client, of "[''a'', ''bad'', ''c'']"]
    by (rule exE)
  note s1 = all [THEN conjunct1]
  note s2 = all [THEN conjunct2, THEN conjunct1]
  note s3 = all [THEN conjunct2, THEN conjunct2, THEN conjunct1]
  note s4 = all [THEN conjunct2, THEN conjunct2, THEN conjunct2]
  have "sections ! 1 = ''Error searching '' @ sq @ take 3 [''a'', ''bad'', ''c''] ! 1 @ sq @ '': '' @
          exn_str (PyExn ''TimeoutError'' ''timed out'' None)"
    by (rule s4 [THEN spec, THEN mp, OF lt, THEN conjunct1, THEN spec, THEN mp, OF o])
  then have e: "sections ! 1 = ''Error searching '' @ sq @ ''bad'' @ sq @ '': timed out''"
    by simp
  have "sections ! 2 =
          ''### Results for: '' @ sq @ take 3 [''a'', ''bad'', ''c''] ! 2 @ sq @ nl @
          summary_line demo_response @ concat (map result_entry (result_list demo_response))"
    by (rule s4 [THEN spec, THEN mp, OF lt2, THEN conjunct2, THEN conjunct2, THEN conjunct1,
          THEN spec, THEN mp, THEN mp, OF o2 wf])
  then have e2: "sections ! 2 =
        ''### Results for: '' @ sq @ ''c'' @ sq @ nl @ ''**AI Summary**: Yes'' @ nl @ nl @
        ''- **Title**: T'' @ nl @ ''  **Link**: #'' @ nl @ ''  **Content**: text'' @ nl @ nl"
    by (simp add: demo_response_def summary_line_def result_list_def result_entry_def)
  have a: "snd (search_tourism demo_env [''a'', ''bad'', ''c'']) = Inr (join_nl sections)"
    using s1 by simp
  have l: "length sections = 3" using s2 by simp
  have c: "search_calls (fst (search_tourism demo_env [''a'', ''bad'', ''c''])) = [''a'', ''bad'', ''c'']"
    using s3 by simp
  have ex: "\<exists>sections.
      snd (search_tourism demo_env [''a'', ''bad'', ''c'']) = Inr (join_nl sections) \<and>
      length sections = 3 \<and>
      sections ! 1 = ''Error searching '' @ sq @ ''bad'' @ sq @ '': timed out'' \<and>
      sections ! 2 =
        ''### Results for: '' @ sq @ ''c'' @ sq @ nl @ ''**AI Summary**: Yes'' @ nl @ nl @
        ''- **Title**: T'' @ nl @ ''  **Link**: #'' @ nl @ ''  **Content**: text'' @ nl @ nl"
    by (rule exI [of _ sections]) (rule conjI [OF a conjI [OF l conjI [OF e e2]]])
  show ?thesis
    by (rule conjI [OF demo_env_key conjI [OF demo_env_client conjI [OF o conjI [OF o2
          conjI [OF wf conjI [OF ex c]]]]]])
qed

text \<open>
  C8. When the credential is absent (not set, or the empty string), the handler returns
  the error text as its result, logging one error record; it does not raise, constructs
  no client and sends no search call.
\<close>

theorem search_tourism_missing_key:
  assumes "TAVILY_API_KEY env = None \<or> TAVILY_API_KEY env = Some []"
  shows "search_tourism env qs =
           ([SrvLog ERROR ''TAVILY_API_KEY is missing. Aborting search.''],
            Inr ''Error: Server misconfigured (Missing API Key).'') \<and>
         search_calls (fst (search_tourism env qs)) = []"
  using assms by (auto simp: search_tourism_def truthy_def)

theorem search_tourism_missing_key_witness:
  "TAVILY_API_KEY (demo_env\<lparr>TAVILY_API_KEY := None\<rparr>) = None \<and>
   search_tourism (demo_env\<lparr>TAVILY_API_KEY := None\<rparr>) [''a'', ''b''] =
     ([SrvLog ERROR ''TAVILY_API_KEY is missing. Aborting search.''],
      Inr ''Error: Server misconfigured (Missing API Key).'') \<and>
   search_calls (fst (search_tourism (demo_env\<lparr>TAVILY_API_KEY := None\<rparr>) [''a'', ''b''])) = []"
  using search_tourism_missing_key [of "demo_env\<lparr>TAVILY_API_KEY := None\<rparr>" "[''a'', ''b'']"]
  by simp

text \<open>
  C10. With the credential present and the client constructed, the handler returns a
  string for every list of queries: no exception of a search call or of the formatting
  leaves the loop. For the empty list the string is empty.
\<close>

theorem search_tourism_never_raises:
  assumes "truthy (TAVILY_API_KEY env)"
    and "TavilyClient env (the (TAVILY_API_KEY env)) = Inr w0"
  shows "(\<exists>out. snd (search_tourism env qs) = Inr out) \<and>
         snd (search_tourism env []) = Inr []"
  using search_tourism_ok(1) [OF assms, of qs] search_tourism_ok(1) [OF assms, of "[]"]
  by simp

theorem search_tourism_never_raises_witness:
  "truthy (TAVILY_API_KEY demo_env) \<and>
   TavilyClient demo_env (the (TAVILY_API_KEY demo_env)) = Inr 0 \<and>
   (\<exists>out. snd (search_tourism demo_env [''bad'', ''bad'']) = Inr out) \<and>
   snd (search_tourism demo_env []) = Inr []"
  by (rule conjI [OF demo_env_key conjI [OF demo_env_client
        search_tourism_never_raises [OF demo_env_key demo_env_client, of "[''bad'', ''bad'']"]]])

section \<open>Properties of the orchestrator\<close>

subsection \<open>The executor node\<close>

lemma extract_text_acc:
  "extract_text acc blocks =
     acc @ concat (map block_text (filter (\<lambda>c. block_type c = ''text'') blocks))"
  by (induction blocks arbitrary: acc) auto

lemma mcp_exchange_ok:
  assumes "spawn_server W = Inr ()" and "session_initialize W = Inr ()"
    and "list_tools W = Inr tools" and "call_tool W ''search_tourism'' qs = Inr blocks"
  shows "snd (mcp_exchange W qs) =
           Inr (empty_state\<lparr>search_results := Some (extract_text [] blocks)\<rparr>)"
  using assms by (simp add: mcp_exchange_def Let_def)

lemma executor_node_snd:
  "search_strategy state = Some strategy \<Longrightarrow>
   snd (executor_node W state) = snd (mcp_exchange W (queries strategy))"
  by (simp add: executor_node_def Let_def split: prod.splits sum.splits)

lemma mcp_exchange_fails:
  assumes "spawn_server W = Inl e \<or>
           (spawn_server W = Inr () \<and> session_initialize W = Inl e) \<or>
           (spawn_server W = Inr () \<and> session_initialize W = Inr () \<and> list_tools W = Inl e) \<or>
           (spawn_server W = Inr () \<and> session_initialize W = Inr () \<and>
            (\<exists>tools. list_tools W = Inr tools) \<and> call_tool W ''search_tourism'' qs = Inl e)"
  shows "snd (mcp_exchange W qs) =
           Inl (if spawn_server W = Inl e then e else leave_scopes W e)"
    and "length (filter (\<lambda>ev. ev = Spawn) (fst (mcp_exchange W qs))) = 1"
    and "filter is_generate (fst (mcp_exchange W qs)) = []"
  using assms by (auto simp: mcp_exchange_def Let_def)

lemma executor_node_fails:
  assumes "search_strategy state = Some strategy"
    and "snd (mcp_exchange W (queries strategy)) = Inl e"
  shows "executor_node W state =
           ([Log INFO ''Executor Node: Connecting to MCP Server.''] @
            fst (mcp_exchange W (queries strategy)) @
            [Log ERROR (''Failed to execute MCP tool: '' @ exn_str e)], Inl e)"
proof -
  obtain evs r where m: "mcp_exchange W (queries strategy) = (evs, r)"
    by (cases "mcp_exchange W (queries strategy)") auto
  with assms(2) have r: "r = Inl e" by simp
  show ?thesis using assms(1) by (simp add: executor_node_def Let_def m r)
qed

lemma resume_at_executor:
  assumes "memory thread_id = Some \<lparr>channel_values = state, next_node = Some Executor\<rparr>"
    and "snd (executor_node W state) = Inl e"
  shows "app W thread_id None memory = (fst (executor_node W state), memory, Inl e)"
proof -
  obtain evs r where x: "executor_node W state = (evs, r)"
    by (cases "executor_node W state") auto
  with assms(2) have r: "r = Inl e" by simp
  show ?thesis using assms(1)
    by (simp add: app_def compiled_run_def interrupt_before_def run_graph.simps x r)
qed

text \<open>
  C9. When the exchange with the tool process succeeds, the executor writes to
  \<open>search_results\<close> exactly the concatenation, in arrival order, of the text of
  the blocks whose type is \<open>text\<close>; blocks of another type add nothing, and an empty
  block sequence gives the empty string.
\<close>

theorem executor_extracts_text:
  assumes "search_strategy state = Some strategy"
    and "spawn_server W = Inr ()" and "session_initialize W = Inr ()"
    and "list_tools W = Inr tools"
    and "call_tool W ''search_tourism'' (queries strategy) = Inr blocks"
  shows "snd (executor_node W state) =
           Inr (empty_state\<lparr>search_results :=
                  Some (concat (map block_text (filter (\<lambda>c. block_type c = ''text'') blocks)))\<rparr>) \<and>
         extract_text [] blocks =
           concat (map block_text (filter (\<lambda>c. block_type c = ''text'') blocks)) \<and>
         extract_text [] [] = []"
  using executor_node_snd [OF assms(1), of W] mcp_exchange_ok [OF assms(2-5)]
  by (simp add: extract_text_acc)

theorem executor_extracts_text_witness:
  "search_strategy demo_planned = Some demo_strategy \<and>
   spawn_server demo_world = Inr () \<and> session_initialize demo_world = Inr () \<and>
   list_tools demo_world = Inr [''search_tourism''] \<and>
   call_tool demo_world ''search_tourism'' (queries demo_strategy) = Inr demo_blocks \<and>
   snd (executor_node demo_world demo_planned) =
     Inr (empty_state\<lparr>search_results := Some ''abcdef''\<rparr>) \<and>
   extract_text [] demo_blocks = ''abcdef''"
proof -
  have h1: "search_strategy demo_planned = Some demo_strategy" by (simp add: demo_planned_def)
  have h2: "spawn_server demo_world = Inr ()" by (simp add: demo_world_def)
  have h3: "session_initialize demo_world = Inr ()" by (simp add: demo_world_def)
  have h4: "list_tools demo_world = Inr [''search_tourism'']" by (simp add: demo_world_def)
  have h5: "call_tool demo_world ''search_tourism'' (queries demo_strategy) = Inr demo_blocks"
    by (simp add: demo_world_def)
  have c: "concat (map block_text (filter (\<lambda>c. block_type c = ''text'') demo_blocks)) = ''abcdef''"
    by (simp add: demo_blocks_def)
  note t = executor_extracts_text [OF h1 h2 h3 h4 h5]
  have a: "snd (executor_node demo_world demo_planned) =
     Inr (empty_state\<lparr>search_results := Some ''abcdef''\<rparr>)"
    using t [THEN conjunct1] unfolding c .
  have b: "extract_text [] demo_blocks = ''abcdef''"
    using t [THEN conjunct2, THEN conjunct1] unfolding c .
  show ?thesis
    by (rule conjI [OF h1 conjI [OF h2 conjI [OF h3 conjI [OF h4 conjI [OF h5 conjI [OF a b]]]]]])
qed

text \<open>
  C5, as the code has it. An exception raised while the tool process is launched, during
  the handshake, the tool listing or the tool call is caught, logged as an error record
  and raised again by \<open>raise e\<close> as it reached the handler: a launch failure as it
  was raised, an exception raised inside the session scopes as what the scopes raise on
  exit for it. The code builds no exception of its own. The exception ends the resumed
  call of the graph: the checkpoint stays as it was, the tool process was launched once
  (nothing is retried) and the writer's generation call does not happen.
\<close>

theorem executor_failure_reraised:
  assumes "search_strategy state = Some strategy"
    and "spawn_server W = Inl e \<or>
         (spawn_server W = Inr () \<and> session_initialize W = Inl e) \<or>
         (spawn_server W = Inr () \<and> session_initialize W = Inr () \<and> list_tools W = Inl e) \<or>
         (spawn_server W = Inr () \<and> session_initialize W = Inr () \<and>
          (\<exists>tools. list_tools W = Inr tools) \<and>
          call_tool W ''search_tourism'' (queries strategy) = Inl e)"
    and "memory thread_id = Some \<lparr>channel_values = state, next_node = Some Executor\<rparr>"
    and "raised = (if spawn_server W = Inl e then e else leave_scopes W e)"
  shows "snd (executor_node W state) = Inl raised \<and>
         last (fst (executor_node W state)) =
           Log ERROR (''Failed to execute MCP tool: '' @ exn_str raised) \<and>
         app W thread_id None memory = (fst (executor_node W state), memory, Inl raised) \<and>
         length (filter (\<lambda>ev. ev = Spawn) (fst (executor_node W state))) = 1 \<and>
         filter is_generate (fst (executor_node W state)) = []"
proof -
  note f = mcp_exchange_fails [OF assms(2)]
  have f1: "snd (mcp_exchange W (queries strategy)) = Inl raised"
    using f(1) assms(4) by simp
  note n = executor_node_fails [OF assms(1) f1]
  have r: "snd (executor_node W state) = Inl raised" using n by simp
  show ?thesis
    using n f(2) f(3) resume_at_executor [of memory thread_id state W raised, OF assms(3) r]
    by simp
qed

theorem executor_failure_reraised_witness:
  "search_strategy demo_planned = Some demo_strategy \<and>
   spawn_server failing_world = Inr () \<and> session_initialize failing_world = Inr () \<and>
   list_tools failing_world = Inr [''search_tourism''] \<and>
   call_tool failing_world ''search_tourism'' (queries demo_strategy) = Inl boom \<and>
   demo_memory ''t'' = Some \<lparr>channel_values = demo_planned, next_node = Some Executor\<rparr> \<and>
   task_group_exit (task_group_exit boom) =
     (if spawn_server failing_world = Inl boom then boom else leave_scopes failing_world boom) \<and>
   snd (executor_node failing_world demo_planned) = Inl (task_group_exit (task_group_exit boom)) \<and>
   last (fst (executor_node failing_world demo_planned)) =
     Log ERROR ''Failed to execute MCP tool: unhandled errors in a TaskGroup (1 sub-exception)'' \<and>
   app failing_world ''t'' None demo_memory =
     (fst (executor_node failing_world demo_planned), demo_memory,
      Inl (task_group_exit (task_group_exit boom))) \<and>
   length (filter (\<lambda>ev. ev = Spawn) (fst (executor_node failing_world demo_planned))) = 1 \<and>
   filter is_generate (fst (executor_node failing_world demo_planned)) = []"
proof -
  have h1: "search_strategy demo_planned = Some demo_strategy" by (simp add: demo_planned_def)
  have h2: "spawn_server failing_world = Inr ()" by (simp add: failing_world_def demo_world_def)
  have h3: "session_initialize failing_world = Inr ()"
    by (simp add: failing_world_def demo_world_def)
  have h4: "list_tools failing_world = Inr [''search_tourism'']"
    by (simp add: failing_world_def demo_world_def)
  have h5: "call_tool failing_world ''search_tourism'' (queries demo_strategy) = Inl boom"
    by (simp add: failing_world_def demo_world_def)
  have h6: "demo_memory ''t'' = Some \<lparr>channel_values = demo_planned, next_node = Some Executor\<rparr>"
    by (simp add: demo_memory_def)
  have h7: "task_group_exit (task_group_exit boom) =
     (if spawn_server failing_world = Inl boom then boom else leave_scopes failing_world boom)"
    by (simp add: failing_world_def demo_world_def)
  have d: "spawn_server failing_world = Inl boom \<or>
         (spawn_server failing_world = Inr () \<and> session_initialize failing_world = Inl boom) \<or>
         (spawn_server failing_world = Inr () \<and> session_initialize failing_world = Inr () \<and>
          list_tools failing_world = Inl boom) \<or>
         (spawn_server failing_world = Inr () \<and> session_initialize failing_world = Inr () \<and>
          (\<exists>tools. list_tools failing_world = Inr tools) \<and>
          call_tool failing_world ''search_tourism'' (queries demo_strategy) = Inl boom)"
    using h2 h3 h4 h5 by blast
  note t = executor_failure_reraised
    [where memory = demo_memory and thread_id = "''t''", OF h1 d h6 h7]
  have m: "exn_str (task_group_exit (task_group_exit boom)) =
             ''unhandled errors in a TaskGroup (1 sub-exception)''"
    by code_simp
  have l: "last (fst (executor_node failing_world demo_planned)) =
     Log ERROR ''Failed to execute MCP tool: unhandled errors in a TaskGroup (1 sub-exception)''"
    using t [THEN conjunct2, THEN conjunct1] unfolding m by simp
  show ?thesis
    by (rule conjI [OF h1 conjI [OF h2 conjI [OF h3 conjI [OF h4 conjI [OF h5 conjI [OF h6
          conjI [OF h7 conjI [OF t [THEN conjunct1]
            conjI [OF l t [THEN conjunct2, THEN conjunct2]]]]]]]]]])
qed

text \<open>
  C5 as stated fails: when the tool call raises a \<open>RuntimeError\<close>, what the executor
  raises is what reached its handler, here the exception group of the task groups around
  the \<open>RuntimeError\<close>. Its class is not \<open>ToolExecutionError\<close>.
\<close>

theorem executor_wraps_counterexample:
  "snd (executor_node failing_world demo_planned) =
     Inl (ExceptionGroup ''unhandled errors in a TaskGroup''
            [ExceptionGroup ''unhandled errors in a TaskGroup''
               [PyExn ''RuntimeError'' ''boom'' None]]) \<and>
   exn_class (ExceptionGroup ''unhandled errors in a TaskGroup''
                [ExceptionGroup ''unhandled errors in a TaskGroup''
                   [PyExn ''RuntimeError'' ''boom'' None]]) \<noteq> ''ToolExecutionError''"
  by (simp add: executor_node_def mcp_exchange_def failing_world_def demo_world_def
      demo_planned_def boom_def task_group_exit_def Let_def)

subsection \<open>Approval gates the tool process\<close>

lemma planner_no_transport: "filter is_transport (fst (planner_node W s)) = []"
  by (simp add: planner_node_def Let_def split: option.splits sum.splits)

lemma start_no_transport:
  "filter is_transport (fst (app W thread_id (Some inp) memory)) = []"
proof -
  define state0 where "state0 = apply_writes
                          (case memory thread_id of None \<Rightarrow> empty_state
                           | Some cp \<Rightarrow> channel_values cp) inp"
  obtain evs r where p: "planner_node W state0 = (evs, r)"
    by (cases "planner_node W state0") auto
  with planner_no_transport [of W state0] have e: "filter is_transport evs = []" by simp
  show ?thesis
    using e
    by (cases r)
      (simp_all add: app_def compiled_run_def interrupt_before_def entry_point_def
        run_graph.simps Let_def state0_def [symmetric] p)
qed

text \<open>
  C1. For every request, session id and world: when the line typed at the prompt does
  not lower to \<open>y\<close>, \<open>main\<close> performs no step of the exchange with the tool
  process: no launch, no handshake, no listing, no tool call. The first call of the graph,
  up to the interrupt, performs none either.
\<close>

theorem rejection_never_invokes_transport:
  assumes "lower approval \<noteq> ''y''"
  shows "filter is_transport (fst (main W thread_id user_input approval)) = [] \<and>
         filter is_transport (fst (app W thread_id (Some (initial_state user_input)) MemorySaver)) = []"
proof -
  obtain tr1 memory1 r1 where
    a: "app W thread_id (Some (initial_state user_input)) MemorySaver = (tr1, memory1, r1)"
    by (cases "app W thread_id (Some (initial_state user_input)) MemorySaver") auto
  with start_no_transport [of W thread_id "initial_state user_input" MemorySaver]
  have e: "filter is_transport tr1 = []" by simp
  show ?thesis
    using assms e
    by (cases r1) (simp_all add: main_def Let_def a split: option.splits)
qed

theorem rejection_never_invokes_transport_witness:
  "lower ''N'' \<noteq> ''y'' \<and>
   filter is_transport (fst (main demo_world ''t'' ''r'' ''N'')) = [] \<and>
   filter is_transport (fst (app demo_world ''t'' (Some (initial_state ''r'')) MemorySaver)) = [] \<and>
   snd (main demo_world ''t'' ''r'' ''N'') = Inr None \<and>
   filter is_transport (fst (main demo_world ''t'' ''r'' ''Y'')) =
     [Spawn, Initialize, ListTools, CallTool ''search_tourism'' (queries demo_strategy), Close]"
proof -
  have h: "lower ''N'' \<noteq> ''y''" by code_simp
  note t = rejection_never_invokes_transport [OF h, of demo_world "''t''" "''r''"]
  have r: "snd (main demo_world ''t'' ''r'' ''N'') = Inr None" by code_simp
  have y: "filter is_transport (fst (main demo_world ''t'' ''r'' ''Y'')) =
     [Spawn, Initialize, ListTools, CallTool ''search_tourism'' (queries demo_strategy), Close]"
    by code_simp
  show ?thesis
    by (rule conjI [OF h conjI [OF t [THEN conjunct1] conjI [OF t [THEN conjunct2] conjI [OF r y]]]])
qed

subsection \<open>The state of a session\<close>

lemma planner_writes:
  "snd (planner_node W s) = Inr w \<Longrightarrow> \<exists>v. w = empty_state\<lparr>search_strategy := Some v\<rparr>"
  by (auto simp: planner_node_def Let_def split: option.splits sum.splits)

lemma mcp_exchange_writes:
  "snd (mcp_exchange W qs) = Inr w \<Longrightarrow> \<exists>v. w = empty_state\<lparr>search_results := Some v\<rparr>"
  by (auto simp: mcp_exchange_def Let_def split: sum.splits)

lemma executor_writes:
  "snd (executor_node W s) = Inr w \<Longrightarrow> \<exists>v. w = empty_state\<lparr>search_results := Some v\<rparr>"
proof -
  assume a: "snd (executor_node W s) = Inr w"
  show ?thesis
  proof (cases "search_strategy s")
    case None
    with a show ?thesis by (simp add: executor_node_def)
  next
    case (Some strategy)
    obtain evs r where m: "mcp_exchange W (queries strategy) = (evs, r)"
      by (cases "mcp_exchange W (queries strategy)") auto
    with a Some have "r = Inr w"
      by (cases r) (simp_all add: executor_node_def Let_def)
    with m mcp_exchange_writes [of W "queries strategy" w] show ?thesis by simp
  qed
qed

lemma writer_writes:
  "snd (writer_node W s) = Inr w \<Longrightarrow> \<exists>v. w = empty_state\<lparr>final_itinerary := Some v\<rparr>"
  by (auto simp: writer_node_def Let_def split: option.splits sum.splits)

lemma step_inv:
  assumes "stage_inv request c" and "step W c c'"
  shows "stage_inv request c' \<and> preserved (snd c) (snd c')"
  using assms(2)
proof cases
  case (node_step n state written)
  show ?thesis
  proof (cases n)
    case Planner
    with node_step planner_writes [of W state written]
    obtain v where "written = empty_state\<lparr>search_strategy := Some v\<rparr>" by auto
    with assms(1) node_step Planner show ?thesis
      by (simp add: stage_inv_def preserved_def apply_writes_def empty_state_def)
  next
    case Executor
    with node_step executor_writes [of W state written]
    obtain v where "written = empty_state\<lparr>search_results := Some v\<rparr>" by auto
    with assms(1) node_step Executor show ?thesis
      by (simp add: stage_inv_def preserved_def apply_writes_def empty_state_def)
  next
    case Writer
    with node_step writer_writes [of W state written]
    obtain v where "written = empty_state\<lparr>final_itinerary := Some v\<rparr>" by auto
    with assms(1) node_step Writer show ?thesis
      by (simp add: stage_inv_def preserved_def apply_writes_def empty_state_def)
  qed
qed

lemma preserved_refl: "preserved s s"
  by (simp add: preserved_def)

lemma preserved_trans: "preserved s s' \<Longrightarrow> preserved s' s'' \<Longrightarrow> preserved s s''"
  by (auto simp: preserved_def)

lemma steps_inv:
  assumes "(step W)\<^sup>*\<^sup>* c c'" and "stage_inv request c"
  shows "stage_inv request c' \<and> preserved (snd c) (snd c')"
  using assms
proof (induction rule: rtranclp_induct)
  case base
  then show ?case by (simp add: preserved_refl)
next
  case (step y z)
  then have "stage_inv request y" and p: "preserved (snd c) (snd y)" by simp_all
  with step_inv [of request y W z] step.hyps(2)
  have "stage_inv request z" and "preserved (snd y) (snd z)" by simp_all
  with p show ?case by (auto intro: preserved_trans)
qed

lemma stage_inv_initial: "stage_inv request (Some entry_point, initial_state request)"
  by (simp add: stage_inv_def entry_point_def initial_state_def empty_state_def)

lemma reachable_inv: "reachable W request c \<Longrightarrow> stage_inv request c"
  unfolding reachable_def using steps_inv [OF _ stage_inv_initial] by blast

text \<open>
  The checkpoints the two calls of \<open>main\<close> store, and the states they return, are
  configurations of the session in the sense of \<open>reachable\<close>.
\<close>

lemma run_graph_reachable:
  assumes "reachable W request (nxt, s)"
    and "\<forall>cp. memory thread_id = Some cp \<longrightarrow> reachable W request (next_node cp, channel_values cp)"
    and "run_graph W ints thread_id resuming nxt s memory tr = (tr', memory', r)"
  shows "(\<forall>cp. memory' thread_id = Some cp \<longrightarrow>
            reachable W request (next_node cp, channel_values cp)) \<and>
         (\<forall>s'. r = Inr s' \<longrightarrow> (\<exists>nxt'. reachable W request (nxt', s')))"
  using assms
proof (induction W ints thread_id resuming nxt s memory tr rule: run_graph.induct)
  case (1 W ints thread_id resuming state memory tr)
  then show ?case by (auto simp: run_graph.simps)
next
  case (2 W ints thread_id resuming n state memory tr)
  show ?case
  proof (cases "n \<in> set ints \<and> \<not> resuming")
    case True
    with 2 show ?thesis by (auto simp: run_graph.simps)
  next
    case False
    obtain evs r0 where x: "node_fn W n state = (evs, r0)"
      by (cases "node_fn W n state") auto
    show ?thesis
    proof (cases r0)
      case (Inl e)
      with 2 False x show ?thesis by (auto simp: run_graph.simps)
    next
      case (Inr written)
      have st: "step W (Some n, state) (edge n, apply_writes state written)"
        using x Inr by (intro step.intros) simp
      with "2.prems"(1) have re: "reachable W request (edge n, apply_writes state written)"
        unfolding reachable_def by (rule rtranclp.rtrancl_into_rtrancl)
      have run: "run_graph W ints thread_id False (edge n) (apply_writes state written)
                 (memory(thread_id \<mapsto>
                    \<lparr>channel_values = apply_writes state written, next_node = edge n\<rparr>))
                 (tr @ evs) = (tr', memory', r)"
        using "2.prems"(3) False x Inr by (simp add: run_graph.simps)
      show ?thesis
        using "2.IH" [OF False x [symmetric] Inr re _ run] re by simp
    qed
  qed
qed

lemma session_checkpoints_reachable:
  assumes "app W thread_id (Some (initial_state request)) MemorySaver = (tr1, memory1, r1)"
    and "app W thread_id None memory1 = (tr2, memory2, r2)"
  shows "(\<forall>cp. memory1 thread_id = Some cp \<longrightarrow>
            reachable W request (next_node cp, channel_values cp)) \<and>
         (\<forall>cp. memory2 thread_id = Some cp \<longrightarrow>
            reachable W request (next_node cp, channel_values cp))"
proof -
  have s0: "apply_writes empty_state (initial_state request) = initial_state request"
    by (simp add: apply_writes_def empty_state_def initial_state_def)
  have r0: "reachable W request (Some entry_point, initial_state request)"
    by (simp add: reachable_def)
  have a: "run_graph W interrupt_before thread_id False (Some entry_point) (initial_state request)
             (MemorySaver(thread_id \<mapsto>
                \<lparr>channel_values = initial_state request, next_node = Some entry_point\<rparr>)) [] =
           (tr1, memory1, r1)"
    using assms(1) by (simp add: app_def compiled_run_def MemorySaver_def s0 Let_def)
  have m1: "\<forall>cp. memory1 thread_id = Some cp \<longrightarrow>
            reachable W request (next_node cp, channel_values cp)"
    using run_graph_reachable [OF r0 _ a] r0 by simp
  show ?thesis
  proof (cases "memory1 thread_id")
    case None
    with assms(2) have "memory2 = memory1" by (simp add: app_def compiled_run_def)
    with m1 show ?thesis by simp
  next
    case (Some cp)
    with m1 have rc: "reachable W request (next_node cp, channel_values cp)" by simp
    have b: "run_graph W interrupt_before thread_id True (next_node cp) (channel_values cp)
               memory1 [] = (tr2, memory2, r2)"
      using assms(2) Some by (simp add: app_def compiled_run_def)
    from run_graph_reachable [OF rc m1 b] m1 show ?thesis by simp
  qed
qed

lemma step_to:
  "snd (node_fn W n s) = Inr written \<Longrightarrow> nxt' = edge n \<Longrightarrow> s' = apply_writes s written \<Longrightarrow>
   step W (Some n, s) (nxt', s')"
  by (simp add: step.intros)

lemma demo_steps:
  "step demo_world (Some Planner, initial_state ''r'') (Some Executor, demo_planned)"
  "step demo_world (Some Executor, demo_planned) (Some Writer, demo_searched)"
  "step demo_world (Some Writer, demo_searched) (None, demo_final)"
proof -
  show "step demo_world (Some Planner, initial_state ''r'') (Some Executor, demo_planned)"
    by (rule step_to [where written = "empty_state\<lparr>search_strategy := Some demo_strategy\<rparr>"])
      (simp_all add: planner_node_def demo_world_def initial_state_def empty_state_def
        apply_writes_def demo_planned_def Let_def)
  show "step demo_world (Some Executor, demo_planned) (Some Writer, demo_searched)"
    by (rule step_to [where written = "empty_state\<lparr>search_results := Some ''abcdef''\<rparr>"])
      (simp_all add: executor_node_def mcp_exchange_def demo_world_def demo_blocks_def
        empty_state_def apply_writes_def demo_planned_def demo_searched_def Let_def)
  show "step demo_world (Some Writer, demo_searched) (None, demo_final)"
    by (rule step_to [where written = "empty_state\<lparr>final_itinerary := Some demo_itinerary\<rparr>"])
      (simp_all add: writer_node_def demo_world_def empty_state_def apply_writes_def
        demo_planned_def demo_searched_def demo_final_def Let_def)
qed

lemma demo_reachable:
  "reachable demo_world ''r'' (Some Executor, demo_planned)"
  "reachable demo_world ''r'' (None, demo_final)"
  "(step demo_world)\<^sup>*\<^sup>* (Some Executor, demo_planned) (None, demo_final)"
proof -
  show a: "reachable demo_world ''r'' (Some Executor, demo_planned)"
    unfolding reachable_def entry_point_def using demo_steps(1) by (rule r_into_rtranclp)
  show b: "(step demo_world)\<^sup>*\<^sup>* (Some Executor, demo_planned) (None, demo_final)"
  proof -
    have "(step demo_world)\<^sup>*\<^sup>* (Some Executor, demo_planned) (Some Writer, demo_searched)"
      using demo_steps(2) by (rule r_into_rtranclp)
    then show ?thesis using demo_steps(3) by (rule rtranclp.rtrancl_into_rtrancl)
  qed
  show "reachable demo_world ''r'' (None, demo_final)"
    using a b unfolding reachable_def by (rule rtranclp_trans)
qed

text \<open>
  C2. In every configuration a session reaches, \<open>user_request\<close> holds the request,
  \<open>search_results\<close> holds a value only if \<open>search_strategy\<close> does, and
  \<open>final_itinerary\<close> only if \<open>search_results\<close> does; and in every
  configuration reached later in the session, each key that held a value holds the same
  value.
\<close>

theorem state_fields_ordered_and_stable:
  assumes "reachable W request (nxt, s)"
  shows "user_request s = Some request \<and>
         (search_results s \<noteq> None \<longrightarrow> search_strategy s \<noteq> None) \<and>
         (final_itinerary s \<noteq> None \<longrightarrow> search_results s \<noteq> None) \<and>
         (\<forall>nxt' s'. (step W)\<^sup>*\<^sup>* (nxt, s) (nxt', s') \<longrightarrow> preserved s s')"
proof -
  have i: "stage_inv request (nxt, s)" by (rule reachable_inv [OF assms])
  have o: "user_request s = Some request \<and>
         (search_results s \<noteq> None \<longrightarrow> search_strategy s \<noteq> None) \<and>
         (final_itinerary s \<noteq> None \<longrightarrow> search_results s \<noteq> None)"
    using i by (auto simp: stage_inv_def split: option.splits node.splits)
  have "preserved s s'" if "(step W)\<^sup>*\<^sup>* (nxt, s) (nxt', s')" for nxt' s'
    using steps_inv [OF that i] by simp
  with o show ?thesis by blast
qed

theorem state_fields_ordered_and_stable_witness:
  "reachable demo_world ''r'' (Some Executor, demo_planned) \<and>
   (step demo_world)\<^sup>*\<^sup>* (Some Executor, demo_planned) (None, demo_final) \<and>
   user_request demo_planned = Some ''r'' \<and>
   search_strategy demo_planned \<noteq> None \<and> search_results demo_planned = None \<and>
   preserved demo_planned demo_final \<and>
   search_strategy demo_final = search_strategy demo_planned \<and>
   search_results demo_final = Some ''abcdef'' \<and>
   final_itinerary demo_final = Some demo_itinerary"
proof -
  note t = state_fields_ordered_and_stable [OF demo_reachable(1)]
  have p: "preserved demo_planned demo_final"
    by (rule t [THEN conjunct2, THEN conjunct2, THEN conjunct2, THEN spec, THEN spec, THEN mp,
          OF demo_reachable(3)])
  have u: "user_request demo_planned = Some ''r''" by (rule t [THEN conjunct1])
  have rest: "search_strategy demo_planned \<noteq> None \<and> search_results demo_planned = None \<and>
   preserved demo_planned demo_final \<and>
   search_strategy demo_final = search_strategy demo_planned \<and>
   search_results demo_final = Some ''abcdef'' \<and>
   final_itinerary demo_final = Some demo_itinerary"
    using p by (simp add: demo_planned_def demo_searched_def demo_final_def)
  show ?thesis
    by (rule conjI [OF demo_reachable(1) conjI [OF demo_reachable(3) conjI [OF u rest]]])
qed

subsection \<open>Resuming a session\<close>

lemma run_graph_writer:
  "Writer \<notin> set ints \<Longrightarrow>
   run_graph W ints thread_id resuming (Some Writer) s memory tr =
     (case writer_node W s of
        (evs, Inl e) \<Rightarrow> (tr @ evs, memory, Inl e)
      | (evs, Inr written) \<Rightarrow>
          (tr @ evs,
           memory(thread_id \<mapsto> \<lparr>channel_values = apply_writes s written, next_node = None\<rparr>),
           Inr (apply_writes s written)))"
  by (simp add: run_graph.simps split: prod.splits sum.splits)

lemma run_graph_executor:
  "Executor \<in> set ints \<longrightarrow> resuming \<Longrightarrow>
   run_graph W ints thread_id resuming (Some Executor) s memory tr =
     (case executor_node W s of
        (evs, Inl e) \<Rightarrow> (tr @ evs, memory, Inl e)
      | (evs, Inr written) \<Rightarrow>
          run_graph W ints thread_id False (Some Writer) (apply_writes s written)
            (memory(thread_id \<mapsto>
               \<lparr>channel_values = apply_writes s written, next_node = Some Writer\<rparr>))
            (tr @ evs))"
  by (auto simp: run_graph.simps split: prod.splits sum.splits)

lemma run_graph_from_executor:
  "run_graph W [] thread_id False (Some Executor) s memory tr =
     (case run_graph W [Executor] thread_id True (Some Executor) s memory [] of
        (tr', memory', r) \<Rightarrow> (tr @ tr', memory', r))"
proof -
  obtain evs r where x: "executor_node W s = (evs, r)"
    by (cases "executor_node W s") auto
  show ?thesis
  proof (cases r)
    case (Inl e)
    with x show ?thesis by (simp add: run_graph_executor)
  next
    case (Inr written)
    obtain evs' r' where y: "writer_node W (apply_writes s written) = (evs', r')"
      by (cases "writer_node W (apply_writes s written)") auto
    show ?thesis using x Inr y
      by (cases r') (simp_all add: run_graph_executor run_graph_writer)
  qed
qed

text \<open>
  C3, as the code has it. Within one process, where the checkpointer keeps what the first
  call stored, resuming a session that stopped at the interrupt gives the same final
  artifact as the uninterrupted run of the graph on the same input; the events of the two
  calls together, the final checkpoints and the result are those of the uninterrupted run.
\<close>

theorem resume_in_process_matches_uninterrupted:
  assumes "app W thread_id (Some inp) memory = (tr1, memory1, Inr s1)"
  shows "final_artifact (app W thread_id None memory1) =
           final_artifact (uninterrupted W thread_id (Some inp) memory) \<and>
         uninterrupted W thread_id (Some inp) memory =
           (tr1 @ fst (app W thread_id None memory1),
            fst (snd (app W thread_id None memory1)),
            snd (snd (app W thread_id None memory1)))"
proof -
  define state0 where "state0 = apply_writes
                          (case memory thread_id of None \<Rightarrow> empty_state
                           | Some cp \<Rightarrow> channel_values cp) inp"
  define memory0 where "memory0 =
    memory(thread_id \<mapsto> \<lparr>channel_values = state0, next_node = Some Planner\<rparr>)"
  obtain evs r where p: "planner_node W state0 = (evs, r)"
    by (cases "planner_node W state0") auto
  have a: "app W thread_id (Some inp) memory =
             run_graph W [Executor] thread_id False (Some Planner) state0 memory0 []"
    by (simp add: app_def compiled_run_def interrupt_before_def entry_point_def Let_def
        state0_def memory0_def)
  have u: "uninterrupted W thread_id (Some inp) memory =
             run_graph W [] thread_id False (Some Planner) state0 memory0 []"
    by (simp add: uninterrupted_def compiled_run_def entry_point_def Let_def
        state0_def memory0_def)
  show ?thesis
  proof (cases r)
    case (Inl e)
    with assms a p show ?thesis by (simp add: run_graph.simps)
  next
    case (Inr written)
    with assms a p have tr1: "tr1 = evs" and s1: "s1 = apply_writes state0 written"
      and m1: "memory1 = memory0(thread_id \<mapsto>
                 \<lparr>channel_values = apply_writes state0 written, next_node = Some Executor\<rparr>)"
      by (auto simp: run_graph.simps)
    have res: "app W thread_id None memory1 =
                 run_graph W [Executor] thread_id True (Some Executor) s1 memory1 []"
      by (simp add: app_def compiled_run_def interrupt_before_def m1 s1)
    have "uninterrupted W thread_id (Some inp) memory =
            run_graph W [] thread_id False (Some Executor) s1 memory1 tr1"
      using u p Inr by (simp add: run_graph.simps tr1 s1 m1)
    then have full: "uninterrupted W thread_id (Some inp) memory =
           (tr1 @ fst (app W thread_id None memory1),
            fst (snd (app W thread_id None memory1)),
            snd (snd (app W thread_id None memory1)))"
      by (simp add: run_graph_from_executor res split: prod.splits)
    then have "final_artifact (app W thread_id None memory1) =
           final_artifact (uninterrupted W thread_id (Some inp) memory)"
      by (simp add: final_artifact_def)
    with full show ?thesis by simp
  qed
qed

theorem resume_in_process_matches_uninterrupted_witness:
  "snd (snd (app demo_world ''t'' (Some (initial_state ''r'')) MemorySaver)) = Inr demo_planned \<and>
   final_artifact
     (app demo_world ''t'' None
        (fst (snd (app demo_world ''t'' (Some (initial_state ''r'')) MemorySaver)))) =
     Inr (Some demo_itinerary) \<and>
   final_artifact (uninterrupted demo_world ''t'' (Some (initial_state ''r'')) MemorySaver) =
     Inr (Some demo_itinerary)"
proof -
  have s: "snd (snd (app demo_world ''t'' (Some (initial_state ''r'')) MemorySaver)) =
             Inr demo_planned"
    by code_simp
  have h: "app demo_world ''t'' (Some (initial_state ''r'')) MemorySaver =
             (fst (app demo_world ''t'' (Some (initial_state ''r'')) MemorySaver),
              fst (snd (app demo_world ''t'' (Some (initial_state ''r'')) MemorySaver)),
              Inr demo_planned)"
    unfolding s [symmetric] by simp
  note t = resume_in_process_matches_uninterrupted [OF h]
  have b: "final_artifact (uninterrupted demo_world ''t'' (Some (initial_state ''r'')) MemorySaver) =
     Inr (Some demo_itinerary)"
    by code_simp
  have a: "final_artifact
     (app demo_world ''t'' None
        (fst (snd (app demo_world ''t'' (Some (initial_state ''r'')) MemorySaver)))) =
     Inr (Some demo_itinerary)"
    using t [THEN conjunct1] unfolding b .
  show ?thesis by (rule conjI [OF s conjI [OF a b]])
qed

text \<open>
  C3 as stated fails: the checkpointer is created empty when the process starts, so a
  resume after a restart finds no checkpoint and raises, where the uninterrupted run
  returns the itinerary.
\<close>

theorem resume_after_restart_counterexample:
  "final_artifact
     (app demo_world ''t'' None
        (process_restart (fst (snd (app demo_world ''t'' (Some (initial_state ''r'')) MemorySaver))))) =
     Inl (PyExn ''EmptyInputError'' ''Received no input for __start__'' None) \<and>
   final_artifact (uninterrupted demo_world ''t'' (Some (initial_state ''r'')) MemorySaver) =
     Inr (Some demo_itinerary)"
proof -
  have a: "final_artifact
     (app demo_world ''t'' None
        (process_restart (fst (snd (app demo_world ''t'' (Some (initial_state ''r'')) MemorySaver))))) =
     Inl (PyExn ''EmptyInputError'' ''Received no input for __start__'' None)"
    by (simp add: process_restart_def MemorySaver_def app_def compiled_run_def final_artifact_def)
  have b: "final_artifact (uninterrupted demo_world ''t'' (Some (initial_state ''r'')) MemorySaver) =
     Inr (Some demo_itinerary)"
    by code_simp
  show ?thesis by (rule conjI [OF a b])
qed

end
